theory Spec2Isabelle
  imports Complex_Main "HOL-Library.Multiset"
begin

section \<open>JavaScript numbers, strings and headers\<close>

text \<open>
  The rate limiter computes with JavaScript numbers read from response headers by
  \<^verbatim>\<open>parseInt(s, 10)\<close>. A number is modelled as an unbounded integer or \<open>NaN\<close>
  (what \<^verbatim>\<open>parseInt\<close> yields on a string without leading digits); the rounding of very
  large doubles is not modelled. Arithmetic and \<^verbatim>\<open>Math.max\<close> propagate \<open>NaN\<close>, and every
  comparison with \<open>NaN\<close> is false, as in the language.
\<close>

datatype jsnum = Number int | NaN

fun js_add :: "jsnum \<Rightarrow> jsnum \<Rightarrow> jsnum" where
  "js_add (Number a) (Number b) = Number (a + b)"
| "js_add _ _ = NaN"

fun js_sub :: "jsnum \<Rightarrow> jsnum \<Rightarrow> jsnum" where
  "js_sub (Number a) (Number b) = Number (a - b)"
| "js_sub _ _ = NaN"

fun js_mul :: "jsnum \<Rightarrow> jsnum \<Rightarrow> jsnum" where
  "js_mul (Number a) (Number b) = Number (a * b)"
| "js_mul _ _ = NaN"

fun js_max :: "jsnum \<Rightarrow> jsnum \<Rightarrow> jsnum" where
  "js_max (Number a) (Number b) = Number (max a b)"
| "js_max _ _ = NaN"

fun js_less :: "jsnum \<Rightarrow> jsnum \<Rightarrow> bool" where
  "js_less (Number a) (Number b) = (a < b)"
| "js_less _ _ = False"

text \<open>
  \<^verbatim>\<open>parseInt(s, 10)\<close>: leading white space is skipped, one sign is accepted, then the
  longest run of decimal digits is read; with no digit the result is \<open>NaN\<close>. White
  space is the ASCII part of the language's set (header values carry no other).
\<close>

definition isWhiteSpace :: "char \<Rightarrow> bool" where
  "isWhiteSpace c \<longleftrightarrow> (of_char c :: nat) \<in> {9, 10, 11, 12, 13, 32}"

definition isDigit :: "char \<Rightarrow> bool" where
  "isDigit c \<longleftrightarrow> 48 \<le> (of_char c :: nat) \<and> (of_char c :: nat) \<le> 57"

definition digitsValue :: "string \<Rightarrow> int" where
  "digitsValue ds = foldl (\<lambda>a c. 10 * a + (of_char c - 48)) 0 ds"

definition parseInt :: "string \<Rightarrow> jsnum" where
  "parseInt s =
     (let t = dropWhile isWhiteSpace s;
          neg = (t \<noteq> [] \<and> hd t = CHR ''-'');
          u = (if t \<noteq> [] \<and> (hd t = CHR ''-'' \<or> hd t = CHR ''+'') then tl t else t);
          ds = takeWhile isDigit u
      in if ds = [] then NaN
         else Number (if neg then - digitsValue ds else digitsValue ds))"

text \<open>\<^verbatim>\<open>String.prototype.includes\<close>: the pattern occurs somewhere in the text.\<close>

fun startsWith :: "string \<Rightarrow> string \<Rightarrow> bool" where
  "startsWith _ [] = True"
| "startsWith [] (p # ps) = False"
| "startsWith (c # cs) (p # ps) = (c = p \<and> startsWith cs ps)"

fun includesStr :: "string \<Rightarrow> string \<Rightarrow> bool" where
  "includesStr [] p = (p = [])"
| "includesStr (c # cs) p = (startsWith (c # cs) p \<or> includesStr cs p)"

text \<open>
  A \<^verbatim>\<open>Headers\<close> object is read only through \<^verbatim>\<open>get(name)\<close>, which returns a string or
  null. A string is truthy when it is not empty.
\<close>

type_synonym headers = "string \<rightharpoonup> string"

definition truthy :: "string option \<Rightarrow> bool" where
  "truthy v = (case v of None \<Rightarrow> False | Some s \<Rightarrow> s \<noteq> [])"

section \<open>The rate-limit state and its timers\<close>

definition ANILIST_API_URL :: string where
  "ANILIST_API_URL = ''https://graphql.anilist.co''"

definition ACTUAL_RATE_LIMIT_PER_MINUTE :: int where
  "ACTUAL_RATE_LIMIT_PER_MINUTE = 30"

definition MIN_REMAINING_BEFORE_PAUSE :: int where
  "MIN_REMAINING_BEFORE_PAUSE = 6"

definition RATE_LIMIT_MAX :: int where
  "RATE_LIMIT_MAX = ACTUAL_RATE_LIMIT_PER_MINUTE"

text \<open>
  The two callbacks the module hands to \<^verbatim>\<open>setTimeout\<close>: the one of
  \<^verbatim>\<open>setRateLimitPause\<close> (its handle is dropped, so nothing can cancel it) and the
  60-second one of \<^verbatim>\<open>updateRateLimitState\<close> (its handle is kept in
  \<^verbatim>\<open>rateLimitResetTimer\<close>).
\<close>

datatype callback = PauseExpiry | CountReset

record timer =
  tHandle :: nat
  tDue :: int
  tAction :: callback

text \<open>The queries the module sends, with their variables.\<close>

datatype query =
    GetTopAnime int
  | GetCharactersBatch "int list"
  | GetTitlesBatch "int list"
  | GetAnimeDetails int
  | GetAnimeByGenres int "string list" int int
  | GetTopAnimeByYear int int int

record AnimeTitle =
  romaji :: string
  english :: "string option"

record AnimeDetails =
  title :: AnimeTitle
  studios :: "string list"
  staff :: "(string \<times> string) list"
  startYear :: int
  genres :: "string list"

text \<open>
  The module's variables, the two in-memory caches, what \<^verbatim>\<open>saveCache\<close> last wrote
  to \<^verbatim>\<open>localStorage\<close> for each of them (\<open>None\<close> while nothing has been written), and
  the part of the JavaScript runtime the module uses: the clock in milliseconds and
  the pending timers in the order they were scheduled. \<open>sent\<close> and \<open>probes\<close> record what
  went to the network: the queries passed to \<^verbatim>\<open>baseClient.rawRequest\<close>, and the number of
  reachability probes.
\<close>

record world =
  remainingRequests :: "jsnum option"
  retryAfterTimestamp :: "jsnum option"
  rateLimitWindowStartTimestamp :: "int option"
  rateLimitResetTimer :: "nat option"
  topAnimeIdsCache :: "int \<rightharpoonup> int list"
  animeDetailsCache :: "int \<rightharpoonup> AnimeDetails"
  storedTopAnimeIds :: "(int \<rightharpoonup> int list) option"
  storedAnimeDetails :: "(int \<rightharpoonup> AnimeDetails) option"
  nowMs :: int
  timers :: "timer list"
  nextHandle :: nat
  sent :: "query list"
  probes :: nat

definition initialWorld :: "int \<Rightarrow> world" where
  "initialWorld t =
     \<lparr> remainingRequests = Some (Number RATE_LIMIT_MAX),
       retryAfterTimestamp = None,
       rateLimitWindowStartTimestamp = None,
       rateLimitResetTimer = None,
       topAnimeIdsCache = Map.empty,
       animeDetailsCache = Map.empty,
       storedTopAnimeIds = None,
       storedAnimeDetails = None,
       nowMs = t,
       timers = [],
       nextHandle = 1,
       sent = [],
       probes = 0 \<rparr>"

text \<open>\<^verbatim>\<open>Math.floor(Date.now() / 1000)\<close>\<close>

definition nowSec :: "world \<Rightarrow> int" where
  "nowSec w = nowMs w div 1000"

text \<open>
  \<^verbatim>\<open>setTimeout(cb, delay)\<close> returns a fresh handle; a delay that is \<open>NaN\<close> or negative
  counts as 0 (the 32-bit limit of real timers is not modelled; no result below rests on
  a delay that long). \<^verbatim>\<open>clearTimeout(h)\<close> drops the pending timer with that handle.
\<close>

definition delayMs :: "jsnum \<Rightarrow> int" where
  "delayMs d = (case d of NaN \<Rightarrow> 0 | Number n \<Rightarrow> max 0 n)"

definition setTimeout :: "callback \<Rightarrow> jsnum \<Rightarrow> world \<Rightarrow> nat \<times> world" where
  "setTimeout cb delay w =
     (nextHandle w,
      w\<lparr>timers := timers w @ [\<lparr>tHandle = nextHandle w, tDue = nowMs w + delayMs delay, tAction = cb\<rparr>],
        nextHandle := Suc (nextHandle w)\<rparr>)"

definition clearTimeout :: "nat \<Rightarrow> world \<Rightarrow> world" where
  "clearTimeout h w = w\<lparr>timers := filter (\<lambda>t. tHandle t \<noteq> h) (timers w)\<rparr>"

fun runCallback :: "callback \<Rightarrow> world \<Rightarrow> world" where
  "runCallback PauseExpiry w =
     w\<lparr>retryAfterTimestamp := None,
       remainingRequests := Some (Number ACTUAL_RATE_LIMIT_PER_MINUTE)\<rparr>"
| "runCallback CountReset w =
     w\<lparr>remainingRequests := Some (Number ACTUAL_RATE_LIMIT_PER_MINUTE),
       rateLimitResetTimer := None\<rparr>"

text \<open>
  A timer that fires leaves the pending list, the clock stands at its due time or later,
  and its callback runs. When the clock moves to \<open>t\<close>, the timers due by then fire in
  the order of their due times, earlier scheduled first among equal ones (the sort is
  stable); no callback of this module schedules or cancels a timer.
\<close>

definition fire :: "world \<Rightarrow> timer \<Rightarrow> world" where
  "fire w tm =
     runCallback (tAction tm)
       (w\<lparr>timers := filter (\<lambda>t. tHandle t \<noteq> tHandle tm) (timers w),
          nowMs := max (nowMs w) (tDue tm)\<rparr>)"

definition advanceTo :: "int \<Rightarrow> world \<Rightarrow> world" where
  "advanceTo t w =
     (let w' = foldl fire w (sort_key tDue (filter (\<lambda>tm. tDue tm \<le> t) (timers w)))
      in w'\<lparr>nowMs := max (nowMs w') t\<rparr>)"

definition setRateLimitPause :: "jsnum \<Rightarrow> world \<Rightarrow> world" where
  "setRateLimitPause retryAfterSeconds w =
     (let now = nowSec w;
          w1 = w\<lparr>retryAfterTimestamp := Some (js_add (Number now) retryAfterSeconds)\<rparr>
      in snd (setTimeout PauseExpiry
                (js_add (js_mul retryAfterSeconds (Number 1000)) (Number 100)) w1))"

text \<open>
  \<^verbatim>\<open>updateRateLimitState\<close> in its three steps: the header is read, a pending 60-second
  timer is cleared, and a new one is armed unless a pause is set.
\<close>

definition readRemainingHeader :: "headers \<Rightarrow> world \<Rightarrow> world" where
  "readRemainingHeader hs w =
     (let remainingHeader = hs ''x-ratelimit-remaining''
      in if truthy remainingHeader
         then w\<lparr>remainingRequests :=
                  Some (js_max (Number 0) (js_sub (parseInt (the remainingHeader)) (Number 60)))\<rparr>
         else w)"

definition clearResetTimer :: "world \<Rightarrow> world" where
  "clearResetTimer w =
     (case rateLimitResetTimer w of
        Some h \<Rightarrow> (clearTimeout h w)\<lparr>rateLimitResetTimer := None\<rparr>
      | None \<Rightarrow> w)"

definition armResetTimer :: "world \<Rightarrow> world" where
  "armResetTimer w =
     (case setTimeout CountReset (Number (60 * 1000)) w of
        (h, w1) \<Rightarrow> w1\<lparr>rateLimitResetTimer := Some h\<rparr>)"

definition updateRateLimitState :: "headers \<Rightarrow> world \<Rightarrow> world" where
  "updateRateLimitState hs w =
     (let w2 = clearResetTimer (readRemainingHeader hs w)
      in if retryAfterTimestamp w2 = None then armResetTimer w2 else w2)"

definition getRateLimitStatus :: "world \<Rightarrow> jsnum option \<times> jsnum option" where
  "getRateLimitStatus w = (remainingRequests w, retryAfterTimestamp w)"

section \<open>The rate-limited client\<close>

text \<open>
  What \<^verbatim>\<open>baseClient.rawRequest\<close> can do: resolve with headers and data, or throw. A
  thrown value is seen by the client through its \<^verbatim>\<open>response\<close> (status and headers, when
  there is one) and its \<^verbatim>\<open>message\<close> (\<open>None\<close> when the value has no string message).
\<close>

record http_response =
  status :: int
  respHeaders :: "headers option"

record js_error =
  response :: "http_response option"
  message :: "string option"

datatype 'a net_outcome = Resolved headers 'a | Rejected js_error

text \<open>
  What a call can throw: the module's \<^verbatim>\<open>RateLimitError\<close> with its two fields, the
  value the transport threw (re-thrown as it is), a \<^verbatim>\<open>TypeError\<close> of the language (a
  property read on \<^verbatim>\<open>undefined\<close>), a \<^verbatim>\<open>RangeError\<close> of the language (an invalid
  \<^verbatim>\<open>Date\<close> asked for its ISO string), or a fresh \<^verbatim>\<open>Error\<close>. The messages of the
  module's \<^verbatim>\<open>new Error(...)\<close> sites are named, with the value each one interpolates.
\<close>

datatype error_message =
    CouldNotFetchDetails int
  | NoAnimeFound
  | CharacterBatchFailed
  | CouldOnlySelect nat
  | TitleBatchFailed
  | FailedAfterMultipleAttempts
  | FailedToGetQuestionCharacters

datatype failure =
    RateLimitError "jsnum option" "jsnum option"
  | Rethrown js_error
  | TypeError
  | RangeError
  | Error error_message

definition isRateLimitError :: "failure \<Rightarrow> bool" where
  "isRateLimitError f = (case f of RateLimitError _ _ \<Rightarrow> True | _ \<Rightarrow> False)"

definition onAttemptStart :: "world \<Rightarrow> world" where
  "onAttemptStart w =
     (if remainingRequests w \<noteq> None \<and> remainingRequests w = Some (Number RATE_LIMIT_MAX)
      then w\<lparr>rateLimitWindowStartTimestamp := Some (nowSec w)\<rparr>
      else w)"

definition rawRequest :: "query \<Rightarrow> world \<Rightarrow> world" where
  "rawRequest q w = w\<lparr>sent := sent w @ [q]\<rparr>"

definition decrementRemaining :: "world \<Rightarrow> world" where
  "decrementRemaining w =
     (case remainingRequests w of
        None \<Rightarrow> w
      | Some r \<Rightarrow> w\<lparr>remainingRequests := Some (js_max (Number 0) (js_sub r (Number 1)))\<rparr>)"

definition onResponse :: "headers \<Rightarrow> world \<Rightarrow> world" where
  "onResponse hs w = decrementRemaining (updateRateLimitState hs w)"

text \<open>
  The 429 branch of the catch block, for the headers of the error's response. Before
  the pause is set, the branch logs
  \<^verbatim>\<open>resetTimestamp ? new Date(resetTimestamp * 1000).toISOString() : 'retry-after'\<close>:
  for a reset time that is truthy (a number other than 0) and more than
  8640000000000000 ms from the epoch the \<^verbatim>\<open>Date\<close> is invalid and \<^verbatim>\<open>toISOString\<close> throws.
\<close>

definition invalidDate :: "jsnum \<Rightarrow> bool" where
  "invalidDate rt =
     (case rt of NaN \<Rightarrow> False
      | Number n \<Rightarrow> n \<noteq> 0 \<and> \<bar>n * 1000\<bar> > 8640000000000000)"

definition on429 :: "headers \<Rightarrow> world \<Rightarrow> failure \<times> world" where
  "on429 hs w =
     (let resetHeader = hs ''x-ratelimit-reset'';
          (retrySeconds, resetTimestamp) =
            (if truthy resetHeader
             then (let rt = parseInt (the resetHeader)
                   in (js_max (Number 1) (js_sub rt (Number (nowSec w))), rt))
             else (let retryAfterHeader = hs ''retry-after'';
                       rs = (if truthy retryAfterHeader then parseInt (the retryAfterHeader)
                             else Number 60)
                   in (rs, js_add (Number (nowSec w)) rs)))
      in if invalidDate resetTimestamp then (RangeError, w)
         else (RateLimitError (Some retrySeconds) (Some resetTimestamp),
               setRateLimitPause retrySeconds w))"

text \<open>
  The branch for a \<^verbatim>\<open>NetworkError\<close> during a burst window, after the probe
  \<^verbatim>\<open>isInternetWorking\<close> has answered \<open>online\<close>.
\<close>

definition probed :: "world \<Rightarrow> world" where
  "probed w = w\<lparr>probes := Suc (probes w)\<rparr>"

definition onNetworkError :: "js_error \<Rightarrow> bool \<Rightarrow> world \<Rightarrow> failure \<times> world" where
  "onNetworkError e online w =
     (let w1 = probed w
      in if online
         then (let resetTimestamp = the (rateLimitWindowStartTimestamp w1) + 60;
                   retrySeconds = max 1 (resetTimestamp - nowSec w1)
               in (RateLimitError (Some (Number retrySeconds)) (Some (Number resetTimestamp)),
                   setRateLimitPause (Number retrySeconds) w1))
         else (Rethrown e, w1))"

text \<open>The catch block of \<^verbatim>\<open>rateLimitedClient.request\<close>, in the order of its tests.\<close>

definition onError :: "js_error \<Rightarrow> bool \<Rightarrow> world \<Rightarrow> failure \<times> world" where
  "onError e online w =
     (let resp = response e
      in if resp \<noteq> None \<and> status (the resp) = 429 \<and> respHeaders (the resp) \<noteq> None
         then on429 (the (respHeaders (the resp))) w
         else if resp \<noteq> None \<and> status (the resp) \<ge> 400
         then (Rethrown e, w)
         else (case message e of
                 None \<Rightarrow> (TypeError, w)
               | Some m \<Rightarrow>
                   if includesStr m ''NetworkError'' \<and> remainingRequests w \<noteq> None
                        \<and> rateLimitWindowStartTimestamp w \<noteq> None
                   then onNetworkError e online w
                   else (Rethrown e, w)))"

text \<open>
  \<^verbatim>\<open>rateLimitedClient.request\<close>: the window mark, the network call, then the success
  path or the catch block. Here the call is taken as one instant: the window mark and
  the handling of the answer read one clock, and no timer fires in between. What is
  stated over \<open>request\<close> below is about the state and the kind of failure, and does
  not depend on the time between the two. Where that time matters, the statement is
  over the part concerned (\<open>onAttemptStart\<close>, \<open>onResponse\<close>, \<open>onError\<close>) in the state in
  which it runs, or over a run of events, which interleaves the parts of a call with
  the clock and the timers.
\<close>

definition request :: "query \<Rightarrow> 'a net_outcome \<Rightarrow> bool \<Rightarrow> world \<Rightarrow> (failure + 'a) \<times> world" where
  "request q out online w =
     (let w1 = rawRequest q (onAttemptStart w)
      in case out of
           Resolved hs d \<Rightarrow> (Inr d, onResponse hs w1)
         | Rejected e \<Rightarrow> (case onError e online w1 of (f, w2) \<Rightarrow> (Inl f, w2)))"

text \<open>
  The parts of the module that run without interruption, as events: the window mark
  at the start of a call, the success path, a pause set by \<^verbatim>\<open>setRateLimitPause\<close>, the
  catch block, and the clock moving on (with the timers that come due).
\<close>

datatype event =
    AttemptStart
  | Succeeded headers
  | Throttled jsnum
  | Failed js_error bool
  | Elapse nat

fun applyEvent :: "world \<Rightarrow> event \<Rightarrow> world" where
  "applyEvent w AttemptStart = onAttemptStart w"
| "applyEvent w (Succeeded hs) = onResponse hs w"
| "applyEvent w (Throttled s) = setRateLimitPause s w"
| "applyEvent w (Failed e online) = snd (onError e online w)"
| "applyEvent w (Elapse d) = advanceTo (nowMs w + int d) w"

definition runEvents :: "event list \<Rightarrow> world \<Rightarrow> world" where
  "runEvents evs w = foldl applyEvent w evs"

definition remainingNonNegative :: "world \<Rightarrow> bool" where
  "remainingNonNegative w =
     (case remainingRequests w of None \<Rightarrow> True | Some r \<Rightarrow> \<not> js_less r (Number 0))"

section \<open>The cached fetchers\<close>

text \<open>
  \<^verbatim>\<open>saveCache\<close> writes the whole cache to \<^verbatim>\<open>localStorage\<close>; without \<^verbatim>\<open>localStorage\<close>, or
  when \<^verbatim>\<open>setItem\<close> throws, it changes nothing (\<open>writable\<close> says which).
\<close>

definition TOP_ANIME_IDS_CACHE_KEY :: string where
  "TOP_ANIME_IDS_CACHE_KEY = ''aniq_topAnimeIdsCache''"

definition ANIME_DETAILS_CACHE_KEY :: string where
  "ANIME_DETAILS_CACHE_KEY = ''aniq_animeDetailsCache''"

definition CACHE_VERSION :: string where
  "CACHE_VERSION = ''v1''"

definition saveTopAnimeIdsCache :: "bool \<Rightarrow> world \<Rightarrow> world" where
  "saveTopAnimeIdsCache writable w =
     (if writable then w\<lparr>storedTopAnimeIds := Some (topAnimeIdsCache w)\<rparr> else w)"

definition saveAnimeDetailsCache :: "bool \<Rightarrow> world \<Rightarrow> world" where
  "saveAnimeDetailsCache writable w =
     (if writable then w\<lparr>storedAnimeDetails := Some (animeDetailsCache w)\<rparr> else w)"

text \<open>
  The data of a response is \<open>None\<close> where the path the code reads
  (\<^verbatim>\<open>data.Page.media\<close>, \<^verbatim>\<open>data.Media\<close>) is null or missing.
\<close>

definition fetchTopAnimeIds ::
  "int \<Rightarrow> int list option net_outcome \<Rightarrow> bool \<Rightarrow> bool \<Rightarrow> world \<Rightarrow> (failure + int list) \<times> world" where
  "fetchTopAnimeIds count' out online writable w =
     (if topAnimeIdsCache w count' \<noteq> None
      then (Inr (the (topAnimeIdsCache w count')), w)
      else (case request (GetTopAnime count') out online w of
              (Inl f, w1) \<Rightarrow> (Inl f, w1)
            | (Inr None, w1) \<Rightarrow> (Inl TypeError, w1)
            | (Inr (Some ids), w1) \<Rightarrow>
                (Inr ids,
                 saveTopAnimeIdsCache writable
                   (w1\<lparr>topAnimeIdsCache := (topAnimeIdsCache w1)(count' \<mapsto> ids)\<rparr>))))"

definition fetchAnimeDetails ::
  "int \<Rightarrow> AnimeDetails option net_outcome \<Rightarrow> bool \<Rightarrow> bool \<Rightarrow> world
     \<Rightarrow> (failure + AnimeDetails) \<times> world" where
  "fetchAnimeDetails animeId out online writable w =
     (if animeDetailsCache w animeId \<noteq> None
      then (Inr (the (animeDetailsCache w animeId)), w)
      else (case request (GetAnimeDetails animeId) out online w of
              (Inl f, w1) \<Rightarrow> (Inl f, w1)
            | (Inr None, w1) \<Rightarrow> (Inl (Error (CouldNotFetchDetails animeId)), w1)
            | (Inr (Some media), w1) \<Rightarrow>
                (Inr media,
                 saveAnimeDetailsCache writable
                   (w1\<lparr>animeDetailsCache := (animeDetailsCache w1)(animeId \<mapsto> media)\<rparr>))))"

section \<open>The question assembler\<close>

record AnimeCharacterBase =
  charId :: int
  fullName :: string
  imageLarge :: "string option"

record AnimeCharacter = AnimeCharacterBase +
  animeTitle :: "AnimeTitle option"

datatype difficulty = Easy | Medium | Hard

text \<open>
  The arguments of \<^verbatim>\<open>getQuestionCharacters\<close> that its body reads (\<^verbatim>\<open>titleDisplay\<close> is
  never read).
\<close>

record params =
  pRound :: int
  pGenres :: "string list"
  pYearStart :: int
  pYearEnd :: int
  pDifficulty :: difficulty

definition getPoolSize :: "int \<Rightarrow> difficulty \<Rightarrow> int" where
  "getPoolSize r d =
     (let baseSize = (if d = Easy then 50 else if d = Medium then 100 else 150);
          roundMultiplier = (if d = Easy then 25 else if d = Medium then 50 else 75)
      in min (baseSize + (r div 5) * roundMultiplier) 500)"

definition maxAttempts :: nat where
  "maxAttempts = 3"

text \<open>
  \<^verbatim>\<open>animeIds.sort(() => Math.random() - 0.5)\<close> leaves some rearrangement of the array,
  which one is up to the engine and the random numbers. \<open>shuffle\<close> builds the
  rearrangement that a list of draws selects: each draw takes one of the elements still
  left. Every rearrangement is the result of some draws (\<open>shuffle_onto\<close> below).
\<close>

fun shuffle :: "nat list \<Rightarrow> 'a list \<Rightarrow> 'a list" where
  "shuffle [] xs = xs"
| "shuffle (k # ks) xs =
     (if xs = [] then []
      else (let i = k mod length xs
            in xs ! i # shuffle ks (take i xs @ drop (Suc i) xs)))"

text \<open>
  \<^verbatim>\<open>arr[Math.floor(Math.random() * arr.length)]\<close> for the draw \<open>r\<close> of \<^verbatim>\<open>Math.random()\<close>;
  an index outside the array reads \<^verbatim>\<open>undefined\<close>.
\<close>

definition randomIndex :: "rat \<Rightarrow> nat \<Rightarrow> int" where
  "randomIndex r n = \<lfloor>r * of_nat n\<rfloor>"

definition elemAt :: "'a list \<Rightarrow> int \<Rightarrow> 'a option" where
  "elemAt xs i = (if 0 \<le> i \<and> i < int (length xs) then Some (xs ! nat i) else None)"

text \<open>\<^verbatim>\<open>new Map(pairs)\<close>: of two pairs with one key the later one stays.\<close>

definition newMap :: "('k \<times> 'v) list \<Rightarrow> ('k \<rightharpoonup> 'v)" where
  "newMap pairs = map_of (rev pairs)"

record selection =
  usedCharIds :: "int set"
  selectedCharsBase :: "AnimeCharacterBase list"
  originAnimeIds :: "int list"

text \<open>The body of the loop over \<^verbatim>\<open>selectedAnimeIds\<close>, up to the test for 4.\<close>

definition selectFor ::
  "(int \<rightharpoonup> AnimeCharacterBase list) \<Rightarrow> rat \<Rightarrow> int \<Rightarrow> selection \<Rightarrow> failure + selection" where
  "selectFor mediaMap r animeId st =
     (case mediaMap animeId of
        None \<Rightarrow> Inr st
      | Some charsForAnime \<Rightarrow>
          if length charsForAnime > 0
          then (let potentialChars = filter (\<lambda>c. charId c \<notin> usedCharIds st) charsForAnime
                in if length potentialChars > 0
                   then (case elemAt potentialChars (randomIndex r (length potentialChars)) of
                           None \<Rightarrow> Inl TypeError
                         | Some selectedChar \<Rightarrow>
                             Inr (st\<lparr>usedCharIds := insert (charId selectedChar) (usedCharIds st),
                                     selectedCharsBase := selectedCharsBase st @ [selectedChar],
                                     originAnimeIds := originAnimeIds st @ [animeId]\<rparr>))
                   else Inr st)
          else Inr st)"

fun selectLoop ::
  "(int \<rightharpoonup> AnimeCharacterBase list) \<Rightarrow> (nat \<Rightarrow> rat) \<Rightarrow> nat \<Rightarrow> int list \<Rightarrow> selection
     \<Rightarrow> failure + selection" where
  "selectLoop mediaMap draws i [] st = Inr st"
| "selectLoop mediaMap draws i (animeId # rest) st =
     (case selectFor mediaMap (draws i) animeId st of
        Inl f \<Rightarrow> Inl f
      | Inr st' \<Rightarrow>
          if length (selectedCharsBase st') = 4 then Inr st'
          else selectLoop mediaMap draws (Suc i) rest st')"

text \<open>
  What one attempt takes from outside: the outcome of each of its three network calls
  (with the probe's answer, should the call fail with a network error), the draws of
  the shuffle, the draw of each pass of the selection loop, and the draw that picks the
  correct answer.
\<close>

record attempt_env =
  poolOut :: "int list option net_outcome"
  poolOnline :: bool
  shuffleDraws :: "nat list"
  charsOut :: "(int \<times> AnimeCharacterBase list) list option net_outcome"
  charsOnline :: bool
  pickDraws :: "nat \<Rightarrow> rat"
  titlesOut :: "(int \<times> AnimeTitle) list option net_outcome"
  titlesOnline :: bool
  correctDraw :: rat

text \<open>
  The value returned, and with it the array \<^verbatim>\<open>originAnimeIds\<close> of the attempt that
  built it (\<open>origins\<close>; the code keeps it local): option \<open>i\<close> comes from anime
  \<open>origins ! i\<close>.
\<close>

record question =
  characters :: "AnimeCharacter list"
  correctCharacterId :: int
  correctAnimeId :: int
  origins :: "int list"

text \<open>Step 1: the pool of anime ids.\<close>

definition poolQuery :: "params \<Rightarrow> query" where
  "poolQuery p =
     (let poolSize = getPoolSize (pRound p) (pDifficulty p)
      in if length (pGenres p) > 0
         then GetAnimeByGenres poolSize (pGenres p)
                (pYearStart p * 10000) ((pYearEnd p + 1) * 10000 - 1)
         else GetTopAnimeByYear poolSize
                (pYearStart p * 10000) ((pYearEnd p + 1) * 10000 - 1))"

definition fetchPool :: "params \<Rightarrow> attempt_env \<Rightarrow> world \<Rightarrow> (failure + int list) \<times> world" where
  "fetchPool p env w =
     (case request (poolQuery p) (poolOut env) (poolOnline env) w of
        (Inl f, w1) \<Rightarrow> (Inl f, w1)
      | (Inr None, w1) \<Rightarrow> (Inl TypeError, w1)
      | (Inr (Some animeIds), w1) \<Rightarrow>
          if length animeIds = 0 then (Inl (Error NoAnimeFound), w1)
          else (Inr animeIds, w1))"

text \<open>Steps 3 and the selection loop: one character for each selected anime.\<close>

definition emptySelection :: selection where
  "emptySelection = \<lparr>usedCharIds = {}, selectedCharsBase = [], originAnimeIds = []\<rparr>"

definition hasImage :: "AnimeCharacterBase \<Rightarrow> bool" where
  "hasImage c = truthy (imageLarge c)"

text \<open>
  \<^verbatim>\<open>new Map(media.map((m) => [m.id, m.characters.nodes.filter((c) => c.image.large)]))\<close>
\<close>

definition mediaMapOf ::
  "(int \<times> AnimeCharacterBase list) list \<Rightarrow> (int \<rightharpoonup> AnimeCharacterBase list)" where
  "mediaMapOf media = newMap (map (\<lambda>(mid, nodes). (mid, filter hasImage nodes)) media)"

definition chooseCharacters ::
  "int list \<Rightarrow> attempt_env \<Rightarrow> world \<Rightarrow> (failure + selection) \<times> world" where
  "chooseCharacters selectedAnimeIds env w =
     (case request (GetCharactersBatch selectedAnimeIds) (charsOut env) (charsOnline env) w of
        (Inl f, w1) \<Rightarrow> (Inl f, w1)
      | (Inr None, w1) \<Rightarrow> (Inl (Error CharacterBatchFailed), w1)
      | (Inr (Some media), w1) \<Rightarrow>
          (let mediaMap = mediaMapOf media
           in case selectLoop mediaMap (pickDraws env) 0 selectedAnimeIds emptySelection of
                Inl f \<Rightarrow> (Inl f, w1)
              | Inr st \<Rightarrow>
                  if length (selectedCharsBase st) < 4
                  then (Inl (Error (CouldOnlySelect (length (selectedCharsBase st)))), w1)
                  else (Inr st, w1)))"

text \<open>
  Steps 4 to 6: the titles, the options, the correct answer. The two arrays read at
  \<^verbatim>\<open>correctIndex\<close> always have the same length (\<open>selectionOk\<close> below), so both reads
  succeed or the first one already throws.
\<close>

definition withTitle :: "(int \<rightharpoonup> AnimeTitle) \<Rightarrow> int list \<Rightarrow> nat \<times> AnimeCharacterBase \<Rightarrow> AnimeCharacter" where
  "withTitle titleMap originIds ic =
     (case ic of (index, char) \<Rightarrow>
        \<lparr>charId = charId char, fullName = fullName char, imageLarge = imageLarge char,
         animeTitle = (if index < length originIds then titleMap (originIds ! index) else None)\<rparr>)"

definition assemble :: "selection \<Rightarrow> attempt_env \<Rightarrow> world \<Rightarrow> (failure + question) \<times> world" where
  "assemble st env w =
     (case request (GetTitlesBatch (originAnimeIds st)) (titlesOut env) (titlesOnline env) w of
        (Inl f, w1) \<Rightarrow> (Inl f, w1)
      | (Inr None, w1) \<Rightarrow> (Inl (Error TitleBatchFailed), w1)
      | (Inr (Some media), w1) \<Rightarrow>
          (let titleMap = newMap media;
               charactersWithTitles =
                 map (withTitle titleMap (originAnimeIds st)) (enumerate 0 (selectedCharsBase st));
               correctIndex = randomIndex (correctDraw env) (length charactersWithTitles)
           in case (elemAt charactersWithTitles correctIndex, elemAt (originAnimeIds st) correctIndex) of
                (Some correctCharacter, Some animeId) \<Rightarrow>
                  (Inr \<lparr>characters = charactersWithTitles,
                        correctCharacterId = charId correctCharacter,
                        correctAnimeId = animeId,
                        origins = originAnimeIds st\<rparr>, w1)
              | _ \<Rightarrow> (Inl TypeError, w1)))"

text \<open>The body of the \<^verbatim>\<open>try\<close> block.\<close>

definition attempt :: "params \<Rightarrow> attempt_env \<Rightarrow> world \<Rightarrow> (failure + question) \<times> world" where
  "attempt p env w =
     (case fetchPool p env w of
        (Inl f, w1) \<Rightarrow> (Inl f, w1)
      | (Inr animeIds, w1) \<Rightarrow>
          (let selectedAnimeIds = take 4 (shuffle (shuffleDraws env) animeIds)
           in case chooseCharacters selectedAnimeIds env w1 of
                (Inl f, w2) \<Rightarrow> (Inl f, w2)
              | (Inr st, w2) \<Rightarrow> assemble st env w2))"

text \<open>
  The \<^verbatim>\<open>while\<close> loop with its \<^verbatim>\<open>catch\<close> block. The third component is the value of the
  counter \<^verbatim>\<open>attempts\<close> when the function leaves; \<open>envs i\<close> is the outside of the attempt
  made while the counter is \<open>i\<close>.
\<close>

function attemptsLoop ::
  "params \<Rightarrow> (nat \<Rightarrow> attempt_env) \<Rightarrow> nat \<Rightarrow> world \<Rightarrow> (failure + question) \<times> world \<times> nat" where
  "attemptsLoop p envs attempts w =
     (if attempts < maxAttempts
      then (case attempt p (envs attempts) w of
              (Inr q, w1) \<Rightarrow> (Inr q, w1, attempts)
            | (Inl f, w1) \<Rightarrow>
                if isRateLimitError f then (Inl f, w1, attempts)
                else if Suc attempts = maxAttempts
                then (Inl (Error FailedAfterMultipleAttempts), w1, Suc attempts)
                else attemptsLoop p envs (Suc attempts) w1)
      else (Inl (Error FailedToGetQuestionCharacters), w, attempts))"
  by pat_completeness auto
termination
  by (relation "measure (\<lambda>(p, envs, attempts, w). maxAttempts - attempts)") auto

definition getQuestionCharacters ::
  "params \<Rightarrow> (nat \<Rightarrow> attempt_env) \<Rightarrow> world \<Rightarrow> (failure + question) \<times> world \<times> nat" where
  "getQuestionCharacters p envs w = attemptsLoop p envs 0 w"




section \<open>Conditions and inputs used in the statements\<close>

text \<open>
  The two tests of the catch block that lead to a \<^verbatim>\<open>RateLimitError\<close>: a response with
  status 429 and headers; and, with no response of status 400 or more, a message that
  contains \<^verbatim>\<open>NetworkError\<close> while the remaining count and the window start are known.
\<close>

definition is429 :: "js_error \<Rightarrow> bool" where
  "is429 e = (case response e of None \<Rightarrow> False
              | Some r \<Rightarrow> status r = 429 \<and> respHeaders r \<noteq> None)"

definition networkHeuristic :: "js_error \<Rightarrow> world \<Rightarrow> bool" where
  "networkHeuristic e w =
     ((case response e of None \<Rightarrow> True | Some r \<Rightarrow> status r < 400)
      \<and> (case message e of None \<Rightarrow> False | Some m \<Rightarrow> includesStr m ''NetworkError'')
      \<and> remainingRequests w \<noteq> None \<and> rateLimitWindowStartTimestamp w \<noteq> None)"

text \<open>
  A state in the middle of a burst: the clock at 100 s, 12 requests left, the window
  started at 70 s. And some values a transport can throw.
\<close>

definition burstWorld :: world where
  "burstWorld = (initialWorld 100000)\<lparr>remainingRequests := Some (Number 12),
                                      rateLimitWindowStartTimestamp := Some 70\<rparr>"

text \<open>
  The state of a call that marked the window at second 0 and whose failure is handled
  at second 10.
\<close>

definition tenSecondsIn :: world where
  "tenSecondsIn = runEvents [AttemptStart, Elapse 10000] (initialWorld 0)"

definition serverError :: js_error where
  "serverError = \<lparr>response = Some \<lparr>status = 500, respHeaders = Some Map.empty\<rparr>,
                  message = Some ''Internal Server Error''\<rparr>"

definition tooManyRequests :: "headers \<Rightarrow> js_error" where
  "tooManyRequests hs = \<lparr>response = Some \<lparr>status = 429, respHeaders = Some hs\<rparr>,
                         message = Some ''Too Many Requests''\<rparr>"

definition firefoxNetworkError :: js_error where
  "firefoxNetworkError =
     \<lparr>response = None, message = Some ''NetworkError when attempting to fetch resource.''\<rparr>"

definition chromeFetchError :: js_error where
  "chromeFetchError = \<lparr>response = None, message = Some ''Failed to fetch''\<rparr>"

definition stalePauseEvents :: "event list" where
  "stalePauseEvents =
     [AttemptStart, Succeeded [''x-ratelimit-remaining'' \<mapsto> ''61''], Elapse 30000,
      AttemptStart, Failed (tooManyRequests [''retry-after'' \<mapsto> ''60'']) True]"

text \<open>
  The pending timers in good order: no handle twice, every handle already given out,
  and a pending 60-second timer is the one \<^verbatim>\<open>rateLimitResetTimer\<close> holds.
\<close>

definition timersOk :: "world \<Rightarrow> bool" where
  "timersOk w \<longleftrightarrow>
     distinct (map tHandle (timers w))
     \<and> (\<forall>tm \<in> set (timers w). tHandle tm < nextHandle w)
     \<and> (\<forall>tm \<in> set (timers w). tAction tm = CountReset \<longrightarrow> rateLimitResetTimer w = Some (tHandle tm))"

definition pendingCountResets :: "world \<Rightarrow> timer list" where
  "pendingCountResets w = filter (\<lambda>tm. tAction tm = CountReset) (timers w)"

text \<open>A world with one entry in each cache.\<close>

definition sampleDetails :: AnimeDetails where
  "sampleDetails = \<lparr>title = \<lparr>romaji = ''Title'', english = None\<rparr>, studios = [''Studio''],
                     staff = [(''Director'', ''Name'')], startYear = 2001, genres = [''Drama'']\<rparr>"

definition cachedWorld :: world where
  "cachedWorld = (initialWorld 0)\<lparr>topAnimeIdsCache := [50 \<mapsto> [1, 2, 3]],
                                   animeDetailsCache := [7 \<mapsto> sampleDetails]\<rparr>"

text \<open>
  What the selection loop keeps true, with \<open>rest\<close> the anime ids still to visit: the
  chosen characters have different ids, all of them recorded as used; every chosen
  character has its origin; and no anime id occurs twice among the origins and the ids
  to come.
\<close>

definition selectionOk :: "selection \<Rightarrow> int list \<Rightarrow> bool" where
  "selectionOk st rest \<longleftrightarrow>
     distinct (map charId (selectedCharsBase st))
     \<and> charId ` set (selectedCharsBase st) \<subseteq> usedCharIds st
     \<and> length (originAnimeIds st) = length (selectedCharsBase st)
     \<and> distinct (originAnimeIds st @ rest)"

text \<open>
  Where an option comes from, read off what the network returned to the attempt: the
  characters with an image that the character batch lists for an anime (none when the
  batch did not resolve with media or has no entry for it), and the title the title
  batch gives for an anime. \<open>baseOf\<close> is an option without its title, that is, the
  character it was made from.
\<close>

definition batchCharacters :: "attempt_env \<Rightarrow> int \<Rightarrow> AnimeCharacterBase list" where
  "batchCharacters env animeId =
     (case charsOut env of
        Resolved hs (Some media) \<Rightarrow>
          (case mediaMapOf media animeId of Some cs \<Rightarrow> cs | None \<Rightarrow> [])
      | _ \<Rightarrow> [])"

definition batchTitle :: "attempt_env \<Rightarrow> int \<Rightarrow> AnimeTitle option" where
  "batchTitle env animeId =
     (case titlesOut env of
        Resolved hs (Some media) \<Rightarrow> newMap media animeId
      | _ \<Rightarrow> None)"

definition baseOf :: "AnimeCharacter \<Rightarrow> AnimeCharacterBase" where
  "baseOf c = \<lparr>charId = charId c, fullName = fullName c, imageLarge = imageLarge c\<rparr>"

text \<open>
  What the selection loop also keeps true: the character chosen at each position is one
  of those the map holds for the anime recorded at that position.
\<close>

definition selectionFrom :: "(int \<rightharpoonup> AnimeCharacterBase list) \<Rightarrow> selection \<Rightarrow> bool" where
  "selectionFrom mediaMap st \<longleftrightarrow>
     list_all2 (\<lambda>c a. \<exists>cs. mediaMap a = Some cs \<and> c \<in> set cs)
       (selectedCharsBase st) (originAnimeIds st)"

text \<open>Inputs of the assembler used in the examples.\<close>

definition sampleCharacter :: "int \<Rightarrow> AnimeCharacterBase" where
  "sampleCharacter i = \<lparr>charId = i, fullName = ''name'', imageLarge = Some ''https://img''\<rparr>"

definition withoutTitle :: "int \<Rightarrow> AnimeCharacter" where
  "withoutTitle i = \<lparr>charId = i, fullName = ''name'', imageLarge = Some ''https://img'',
                     animeTitle = None\<rparr>"

definition sampleParams :: params where
  "sampleParams = \<lparr>pRound = 7, pGenres = [], pYearStart = 1940, pYearEnd = 2025,
                    pDifficulty = Medium\<rparr>"

definition distinctPoolEnv :: attempt_env where
  "distinctPoolEnv =
     \<lparr>poolOut = Resolved Map.empty (Some [11, 12, 13, 14, 15]), poolOnline = True,
      shuffleDraws = [],
      charsOut = Resolved Map.empty
        (Some [(11, [sampleCharacter 110, sampleCharacter 111]), (12, [sampleCharacter 120]),
               (13, [sampleCharacter 130]), (14, [sampleCharacter 140])]),
      charsOnline = True, pickDraws = (\<lambda>i. 0),
      titlesOut = Resolved Map.empty (Some [(13, \<lparr>romaji = ''Title'', english = None\<rparr>)]),
      titlesOnline = True, correctDraw = 1 / 2\<rparr>"

definition distinctPoolQuestion :: question where
  "distinctPoolQuestion =
     \<lparr>characters = [withoutTitle 110, withoutTitle 120,
                    \<lparr>charId = 130, fullName = ''name'', imageLarge = Some ''https://img'',
                     animeTitle = Some \<lparr>romaji = ''Title'', english = None\<rparr>\<rparr>,
                    withoutTitle 140],
      correctCharacterId = 130, correctAnimeId = 13, origins = [11, 12, 13, 14]\<rparr>"

text \<open>A pool in which the id 1 comes twice, and an anime 1 with two characters.\<close>

definition repeatedPoolEnv :: attempt_env where
  "repeatedPoolEnv =
     \<lparr>poolOut = Resolved Map.empty (Some [1, 1, 2, 3, 4]), poolOnline = True,
      shuffleDraws = [],
      charsOut = Resolved Map.empty
        (Some [(1, [sampleCharacter 10, sampleCharacter 11]), (2, [sampleCharacter 20]),
               (3, [sampleCharacter 30])]),
      charsOnline = True, pickDraws = (\<lambda>i. 0),
      titlesOut = Resolved Map.empty (Some []),
      titlesOnline = True, correctDraw = 1 / 2\<rparr>"

text \<open>
  An attempt that finds no anime; one whose character batch has characters with images
  for only two of the four selected anime; and one whose first call meets a 429.
\<close>

definition emptyPoolEnv :: attempt_env where
  "emptyPoolEnv = distinctPoolEnv\<lparr>poolOut := Resolved Map.empty (Some [])\<rparr>"

definition shortBatchEnv :: attempt_env where
  "shortBatchEnv =
     distinctPoolEnv\<lparr>charsOut := Resolved Map.empty
        (Some [(11, [sampleCharacter 110]), (12, [sampleCharacter 120]),
               (13, [\<lparr>charId = 130, fullName = ''name'', imageLarge = None\<rparr>]), (14, [])])\<rparr>"

definition throttledEnv :: attempt_env where
  "throttledEnv =
     distinctPoolEnv\<lparr>poolOut := Rejected (tooManyRequests [''retry-after'' \<mapsto> ''45''])\<rparr>"

definition retryThenThrottled :: "nat \<Rightarrow> attempt_env" where
  "retryThenThrottled i = (if i = 0 then emptyPoolEnv else throttledEnv)"

section \<open>Evaluation rules\<close>

lemmas governor_defs =
  onAttemptStart_def onResponse_def updateRateLimitState_def readRemainingHeader_def
  clearResetTimer_def armResetTimer_def decrementRemaining_def
  setRateLimitPause_def setTimeout_def clearTimeout_def nowSec_def delayMs_def truthy_def
  RATE_LIMIT_MAX_def ACTUAL_RATE_LIMIT_PER_MINUTE_def

lemmas parse_defs = parseInt_def isWhiteSpace_def isDigit_def digitsValue_def

lemmas client_defs =
  request_def rawRequest_def onError_def on429_def onNetworkError_def invalidDate_def probed_def

lemmas example_defs =
  burstWorld_def initialWorld_def serverError_def tooManyRequests_def firefoxNetworkError_def
  chromeFetchError_def

lemmas timer_defs = advanceTo_def fire_def

lemmas assembler_defs =
  getQuestionCharacters_def attempt_def fetchPool_def poolQuery_def getPoolSize_def
  chooseCharacters_def mediaMapOf_def assemble_def selectFor_def emptySelection_def hasImage_def
  newMap_def
  withTitle_def randomIndex_def elemAt_def maxAttempts_def

lemmas sample_defs =
  sampleParams_def sampleCharacter_def withoutTitle_def distinctPoolEnv_def repeatedPoolEnv_def
  distinctPoolQuestion_def emptyPoolEnv_def shortBatchEnv_def throttledEnv_def
  retryThenThrottled_def

section \<open>What each part of the client changes\<close>

lemma setRateLimitPause_frame:
  "remainingRequests (setRateLimitPause s w) = remainingRequests w
   \<and> rateLimitResetTimer (setRateLimitPause s w) = rateLimitResetTimer w
   \<and> rateLimitWindowStartTimestamp (setRateLimitPause s w) = rateLimitWindowStartTimestamp w
   \<and> topAnimeIdsCache (setRateLimitPause s w) = topAnimeIdsCache w
   \<and> animeDetailsCache (setRateLimitPause s w) = animeDetailsCache w
   \<and> sent (setRateLimitPause s w) = sent w
   \<and> nowMs (setRateLimitPause s w) = nowMs w"
  by (simp add: setRateLimitPause_def setTimeout_def Let_def)

lemma setRateLimitPause_effect:
  "retryAfterTimestamp (setRateLimitPause s w) = Some (js_add (Number (nowSec w)) s)
   \<and> timers (setRateLimitPause s w) =
       timers w @ [\<lparr>tHandle = nextHandle w,
                    tDue = nowMs w + delayMs (js_add (js_mul s (Number 1000)) (Number 100)),
                    tAction = PauseExpiry\<rparr>]"
  by (simp add: setRateLimitPause_def setTimeout_def Let_def nowSec_def)

lemma started_frame:
  "remainingRequests (rawRequest q (onAttemptStart w)) = remainingRequests w
   \<and> rateLimitResetTimer (rawRequest q (onAttemptStart w)) = rateLimitResetTimer w
   \<and> rateLimitWindowStartTimestamp (rawRequest q (onAttemptStart w))
       = rateLimitWindowStartTimestamp (onAttemptStart w)
   \<and> retryAfterTimestamp (rawRequest q (onAttemptStart w)) = retryAfterTimestamp w
   \<and> timers (rawRequest q (onAttemptStart w)) = timers w
   \<and> nextHandle (rawRequest q (onAttemptStart w)) = nextHandle w
   \<and> topAnimeIdsCache (rawRequest q (onAttemptStart w)) = topAnimeIdsCache w
   \<and> animeDetailsCache (rawRequest q (onAttemptStart w)) = animeDetailsCache w
   \<and> sent (rawRequest q (onAttemptStart w)) = sent w @ [q]
   \<and> nowMs (rawRequest q (onAttemptStart w)) = nowMs w
   \<and> nowSec (rawRequest q (onAttemptStart w)) = nowSec w"
  by (simp add: rawRequest_def onAttemptStart_def nowSec_def)

lemma probed_frame:
  "remainingRequests (probed w) = remainingRequests w
   \<and> rateLimitResetTimer (probed w) = rateLimitResetTimer w
   \<and> rateLimitWindowStartTimestamp (probed w) = rateLimitWindowStartTimestamp w
   \<and> retryAfterTimestamp (probed w) = retryAfterTimestamp w
   \<and> timers (probed w) = timers w
   \<and> nextHandle (probed w) = nextHandle w
   \<and> topAnimeIdsCache (probed w) = topAnimeIdsCache w
   \<and> animeDetailsCache (probed w) = animeDetailsCache w
   \<and> sent (probed w) = sent w
   \<and> nowMs (probed w) = nowMs w
   \<and> nowSec (probed w) = nowSec w"
  by (simp add: probed_def nowSec_def)

lemma onResponse_frame:
  "sent (onResponse hs w) = sent w
   \<and> topAnimeIdsCache (onResponse hs w) = topAnimeIdsCache w
   \<and> animeDetailsCache (onResponse hs w) = animeDetailsCache w"
  by (simp add: onResponse_def decrementRemaining_def updateRateLimitState_def
      readRemainingHeader_def clearResetTimer_def armResetTimer_def setTimeout_def
      clearTimeout_def Let_def split: option.splits)

lemma on429_cases:
  "on429 hs w = (RangeError, w)
   \<or> (\<exists>rs rt. on429 hs w = (RateLimitError (Some rs) (Some rt), setRateLimitPause rs w))"
  by (simp add: on429_def Let_def split: prod.splits)

lemma onNetworkError_cases:
  "(online \<and> (\<exists>rs rt. onNetworkError e online w
        = (RateLimitError (Some rs) (Some rt), setRateLimitPause rs (probed w))))
   \<or> (\<not> online \<and> onNetworkError e online w = (Rethrown e, probed w))"
  by (simp add: onNetworkError_def Let_def)

text \<open>The four ways out of the catch block.\<close>

lemma onError_cases:
  "(\<not> isRateLimitError (fst (onError e online w)) \<and> snd (onError e online w) = w)
   \<or> (is429 e \<and> (\<exists>rs rt. onError e online w
          = (RateLimitError (Some rs) (Some rt), setRateLimitPause rs w)))
   \<or> (networkHeuristic e w \<and> online \<and> (\<exists>rs rt. onError e online w
          = (RateLimitError (Some rs) (Some rt), setRateLimitPause rs (probed w))))
   \<or> (networkHeuristic e w \<and> \<not> online \<and> onError e online w = (Rethrown e, probed w))"
proof (cases "is429 e")
  case True
  then have "onError e online w = on429 (the (respHeaders (the (response e)))) w"
    by (auto simp: onError_def is429_def Let_def split: option.splits)
  with on429_cases [of "the (respHeaders (the (response e)))" w] True show ?thesis
    by (auto simp: isRateLimitError_def)
next
  case no429: False
  show ?thesis
  proof (cases "response e \<noteq> None \<and> status (the (response e)) \<ge> 400")
    case True
    with no429 have "onError e online w = (Rethrown e, w)"
      by (auto simp: onError_def is429_def Let_def split: option.splits)
    then show ?thesis by (simp add: isRateLimitError_def)
  next
    case low: False
    show ?thesis
    proof (cases "networkHeuristic e w")
      case True
      with no429 low have "onError e online w = onNetworkError e online w"
        by (auto simp: onError_def is429_def networkHeuristic_def Let_def split: option.splits)
      with onNetworkError_cases [of online e w] True show ?thesis by auto
    next
      case False
      with no429 low
      have "onError e online w = (TypeError, w) \<or> onError e online w = (Rethrown e, w)"
        by (auto simp: onError_def is429_def networkHeuristic_def Let_def split: option.splits)
      then show ?thesis by (auto simp: isRateLimitError_def)
    qed
  qed
qed

lemma onError_frame:
  "remainingRequests (snd (onError e online w)) = remainingRequests w
   \<and> rateLimitResetTimer (snd (onError e online w)) = rateLimitResetTimer w
   \<and> rateLimitWindowStartTimestamp (snd (onError e online w)) = rateLimitWindowStartTimestamp w
   \<and> topAnimeIdsCache (snd (onError e online w)) = topAnimeIdsCache w
   \<and> animeDetailsCache (snd (onError e online w)) = animeDetailsCache w
   \<and> sent (snd (onError e online w)) = sent w
   \<and> (\<not> isRateLimitError (fst (onError e online w)) \<longrightarrow>
        retryAfterTimestamp (snd (onError e online w)) = retryAfterTimestamp w
        \<and> timers (snd (onError e online w)) = timers w)"
  using onError_cases [of e online w]
  by (elim disjE conjE exE) (simp_all add: setRateLimitPause_frame probed_frame isRateLimitError_def)

lemma request_Rejected:
  "request q (Rejected e) online w =
     (Inl (fst (onError e online (rawRequest q (onAttemptStart w)))),
      snd (onError e online (rawRequest q (onAttemptStart w))))"
  by (simp add: request_def Let_def split: prod.splits)

lemma request_Resolved:
  "request q (Resolved hs d) online w = (Inr d, onResponse hs (rawRequest q (onAttemptStart w)))"
  by (simp add: request_def Let_def)

lemma sent_request: "sent (snd (request q out online w)) = sent w @ [q]"
  by (cases out)
     (simp_all add: request_Rejected request_Resolved onError_frame onResponse_frame started_frame)

section \<open>The remaining count is never negative\<close>

lemma js_max_zero_not_negative: "\<not> js_less (js_max (Number 0) x) (Number 0)"
  by (cases x) simp_all

lemma nonneg_setRateLimitPause:
  "remainingNonNegative (setRateLimitPause s w) = remainingNonNegative w"
  by (simp add: remainingNonNegative_def setRateLimitPause_frame)

lemma nonneg_onAttemptStart:
  "remainingNonNegative (onAttemptStart w) = remainingNonNegative w"
  by (simp add: remainingNonNegative_def onAttemptStart_def)

lemma nonneg_decrementRemaining: "remainingNonNegative (decrementRemaining w)"
  by (simp add: remainingNonNegative_def decrementRemaining_def js_max_zero_not_negative
      split: option.splits)

lemma nonneg_runCallback: "remainingNonNegative (runCallback cb w)"
  by (cases cb) (simp_all add: remainingNonNegative_def ACTUAL_RATE_LIMIT_PER_MINUTE_def)

lemma nonneg_fire: "remainingNonNegative (fire w tm)"
  by (simp add: fire_def nonneg_runCallback)

lemma nonneg_foldl_fire:
  "remainingNonNegative w \<Longrightarrow> remainingNonNegative (foldl fire w tms)"
  by (induction tms arbitrary: w) (simp_all add: nonneg_fire)

lemma nonneg_advanceTo:
  "remainingNonNegative w \<Longrightarrow> remainingNonNegative (advanceTo t w)"
  using nonneg_foldl_fire [of w]
  by (simp add: advanceTo_def Let_def remainingNonNegative_def)

lemma nonneg_onError:
  "remainingNonNegative (snd (onError e online w)) = remainingNonNegative w"
  by (simp add: remainingNonNegative_def onError_frame)

lemma nonneg_applyEvent:
  "remainingNonNegative w \<Longrightarrow> remainingNonNegative (applyEvent w ev)"
  by (cases ev)
     (simp_all add: nonneg_onAttemptStart nonneg_setRateLimitPause nonneg_advanceTo
        onResponse_def nonneg_decrementRemaining nonneg_onError)

lemma nonneg_runEvents:
  "remainingNonNegative w \<Longrightarrow> remainingNonNegative (runEvents evs w)"
  unfolding runEvents_def
  by (induction evs arbitrary: w) (simp_all add: nonneg_applyEvent)

text \<open>
  C4. Start from the module's initial state and apply any sequence of events: window
  marks, successful responses (header read, then the decrement), pauses set by
  \<^verbatim>\<open>setRateLimitPause\<close>, failed calls, and the clock moving on with the timers that come
  due. Whenever the remaining count is known afterwards, it is not below zero: it is
  never a number \<open>n < 0\<close>. (A header that is not a number leaves \<open>NaN\<close>, which is not
  below zero either.) The sequence is arbitrary, so this holds after every prefix.
\<close>

theorem remaining_never_negative:
  "remainingNonNegative (runEvents evs (initialWorld t))
   \<and> (\<forall>n. remainingRequests (runEvents evs (initialWorld t)) = Some (Number n) \<longrightarrow> 0 \<le> n)"
proof -
  have init: "remainingNonNegative (initialWorld t)"
    by (simp add: remainingNonNegative_def initialWorld_def RATE_LIMIT_MAX_def
        ACTUAL_RATE_LIMIT_PER_MINUTE_def)
  have inv: "remainingNonNegative (runEvents evs (initialWorld t))"
    by (rule nonneg_runEvents [OF init])
  then show ?thesis
    by (auto simp: remainingNonNegative_def)
qed

theorem remaining_never_negative_witness:
  "remainingRequests
     (runEvents [AttemptStart, Succeeded [''x-ratelimit-remaining'' \<mapsto> ''60''], Throttled (Number 5),
                 Succeeded Map.empty]
        (initialWorld 0)) = Some (Number 0)
   \<and> remainingNonNegative
       (runEvents [AttemptStart, Succeeded [''x-ratelimit-remaining'' \<mapsto> ''60''], Throttled (Number 5),
                   Succeeded Map.empty]
          (initialWorld 0))"
  using remaining_never_negative
    [of "[AttemptStart, Succeeded [''x-ratelimit-remaining'' \<mapsto> ''60''], Throttled (Number 5),
          Succeeded Map.empty]" 0]
  by (simp add: runEvents_def initialWorld_def governor_defs parse_defs)

section \<open>The request is always sent\<close>

lemma onAttemptStart_pause:
  "onAttemptStart (w\<lparr>retryAfterTimestamp := p\<rparr>) = (onAttemptStart w)\<lparr>retryAfterTimestamp := p\<rparr>"
  by (simp add: onAttemptStart_def nowSec_def)

lemma rawRequest_pause:
  "rawRequest q (w\<lparr>retryAfterTimestamp := p\<rparr>) = (rawRequest q w)\<lparr>retryAfterTimestamp := p\<rparr>"
  by (simp add: rawRequest_def)

lemma fst_on429_pause:
  "fst (on429 hs (w\<lparr>retryAfterTimestamp := p\<rparr>)) = fst (on429 hs w)"
  by (simp add: on429_def nowSec_def Let_def split: prod.splits)

lemma fst_onNetworkError_pause:
  "fst (onNetworkError e online (w\<lparr>retryAfterTimestamp := p\<rparr>)) = fst (onNetworkError e online w)"
  by (simp add: onNetworkError_def probed_def nowSec_def Let_def)

lemma fst_onError_pause:
  "fst (onError e online (w\<lparr>retryAfterTimestamp := p\<rparr>)) = fst (onError e online w)"
  by (cases "message e")
     (auto simp add: onError_def Let_def fst_on429_pause fst_onNetworkError_pause)

lemma fst_request_pause:
  "fst (request q out online (w\<lparr>retryAfterTimestamp := p\<rparr>)) = fst (request q out online w)"
  by (cases out)
     (simp_all add: request_Rejected request_Resolved onAttemptStart_pause rawRequest_pause
        fst_onError_pause)

lemma networkHeuristic_rawRequest:
  "networkHeuristic e (rawRequest q w) = networkHeuristic e w"
  by (simp add: networkHeuristic_def rawRequest_def)

text \<open>
  C5. Every call of the client passes its query to the network, whatever the state:
  the query is appended to what was sent. The pause field has no part in the outcome:
  with any other value of \<^verbatim>\<open>retryAfterTimestamp\<close> the call returns or throws the same. And a
  \<^verbatim>\<open>RateLimitError\<close> comes out only when the network call itself failed, with a 429
  response, or with a network error during a burst window while the probe says the
  network is reachable.
\<close>

theorem request_always_attempted:
  "sent (snd (request q out online w)) = sent w @ [q]
   \<and> fst (request q out online (w\<lparr>retryAfterTimestamp := pause\<rparr>)) = fst (request q out online w)
   \<and> (\<forall>f. fst (request q out online w) = Inl f \<and> isRateLimitError f \<longrightarrow>
         (\<exists>e. out = Rejected e \<and> (is429 e \<or> (networkHeuristic e (onAttemptStart w) \<and> online))))"
proof (intro conjI allI impI)
  show "sent (snd (request q out online w)) = sent w @ [q]"
    by (rule sent_request)
  show "fst (request q out online (w\<lparr>retryAfterTimestamp := pause\<rparr>)) = fst (request q out online w)"
    by (rule fst_request_pause)
next
  fix f
  assume a: "fst (request q out online w) = Inl f \<and> isRateLimitError f"
  show "\<exists>e. out = Rejected e \<and> (is429 e \<or> (networkHeuristic e (onAttemptStart w) \<and> online))"
  proof (cases out)
    case (Resolved hs d)
    with a show ?thesis by (simp add: request_Resolved)
  next
    case (Rejected e)
    with a have "isRateLimitError (fst (onError e online (rawRequest q (onAttemptStart w))))"
      by (simp add: request_Rejected)
    with onError_cases [of e online "rawRequest q (onAttemptStart w)"] Rejected
    show ?thesis by (auto simp: isRateLimitError_def networkHeuristic_rawRequest)
  qed
qed

theorem request_always_attempted_witness:
  "sent (snd (request (GetTopAnime 10)
            (Rejected (tooManyRequests [''retry-after'' \<mapsto> ''45'']) :: unit net_outcome) True
            (burstWorld\<lparr>retryAfterTimestamp := Some (Number 500)\<rparr>)))
     = [GetTopAnime 10]
   \<and> fst (request (GetTopAnime 10)
            (Rejected (tooManyRequests [''retry-after'' \<mapsto> ''45'']) :: unit net_outcome) True
            (burstWorld\<lparr>retryAfterTimestamp := Some (Number 500)\<rparr>))
     = Inl (RateLimitError (Some (Number 45)) (Some (Number 145)))
   \<and> isRateLimitError (RateLimitError (Some (Number 45)) (Some (Number 145)))
   \<and> is429 (tooManyRequests [''retry-after'' \<mapsto> ''45''])"
  using request_always_attempted
    [of "GetTopAnime 10" "Rejected (tooManyRequests [''retry-after'' \<mapsto> ''45'']) :: unit net_outcome"
        True "burstWorld\<lparr>retryAfterTimestamp := Some (Number 500)\<rparr>" "Some (Number 500)"]
  by (simp add: client_defs example_defs governor_defs parse_defs isRateLimitError_def is429_def)

section \<open>A failed request and the remaining count\<close>

text \<open>
  C10, as the code has it. A call that ends in an error leaves the remaining count as it
  was: the decrement is on the success path only. It also leaves the handle of the
  60-second timer and both caches as they were. The window start is what the
  start of the attempt made of it (the attempt sets it to the current second when the
  count stands at the maximum), and unless the error is a \<^verbatim>\<open>RateLimitError\<close>, the pause
  field and the pending timers are unchanged too.
\<close>

theorem failed_request_keeps_count:
  assumes "request q out online w = (Inl f, w')"
  shows "remainingRequests w' = remainingRequests w
     \<and> rateLimitResetTimer w' = rateLimitResetTimer w
     \<and> rateLimitWindowStartTimestamp w' = rateLimitWindowStartTimestamp (onAttemptStart w)
     \<and> topAnimeIdsCache w' = topAnimeIdsCache w
     \<and> animeDetailsCache w' = animeDetailsCache w
     \<and> (\<not> isRateLimitError f \<longrightarrow>
          retryAfterTimestamp w' = retryAfterTimestamp w \<and> timers w' = timers w)"
proof (cases out)
  case (Resolved hs d)
  with assms show ?thesis by (simp add: request_Resolved)
next
  case (Rejected e)
  with assms have f: "f = fst (onError e online (rawRequest q (onAttemptStart w)))"
    and w': "w' = snd (onError e online (rawRequest q (onAttemptStart w)))"
    by (simp_all add: request_Rejected)
  show ?thesis
    unfolding f w'
    using onError_frame [of e online "rawRequest q (onAttemptStart w)"]
    by (simp add: started_frame)
qed

theorem failed_request_keeps_count_witness:
  "request (GetTopAnime 10) (Rejected serverError :: unit net_outcome) True (initialWorld 5000)
    = (Inl (Rethrown serverError),
       (initialWorld 5000)\<lparr>rateLimitWindowStartTimestamp := Some 5, sent := [GetTopAnime 10]\<rparr>)
   \<and> \<not> isRateLimitError (Rethrown serverError)
   \<and> remainingRequests ((initialWorld 5000)\<lparr>rateLimitWindowStartTimestamp := Some 5,
          sent := [GetTopAnime 10]\<rparr>) = Some (Number 30)
   \<and> timers ((initialWorld 5000)\<lparr>rateLimitWindowStartTimestamp := Some 5,
          sent := [GetTopAnime 10]\<rparr>) = []"
  using failed_request_keeps_count
    [of "GetTopAnime 10" "Rejected serverError :: unit net_outcome" True "initialWorld 5000"
        "Rethrown serverError"
        "(initialWorld 5000)\<lparr>rateLimitWindowStartTimestamp := Some 5, sent := [GetTopAnime 10]\<rparr>"]
  by (simp add: client_defs example_defs governor_defs isRateLimitError_def)

text \<open>
  The claim as written lets only the pause field and the timers change. In the initial
  state a call that fails with status 500 moves the window start from unset to the
  current second.
\<close>

theorem failed_request_moves_window_start:
  "fst (request (GetTopAnime 10) (Rejected serverError :: unit net_outcome) True (initialWorld 5000))
    = Inl (Rethrown serverError)
   \<and> rateLimitWindowStartTimestamp (initialWorld 5000) = None
   \<and> rateLimitWindowStartTimestamp
       (snd (request (GetTopAnime 10) (Rejected serverError :: unit net_outcome) True
               (initialWorld 5000))) = Some 5"
  by (simp add: client_defs example_defs governor_defs)

section \<open>A network error during a burst window\<close>

text \<open>
  The branch itself, at the state in which it resumes once the probe has answered: the
  window start and the clock are read there, however long the probe took.
\<close>

lemma onNetworkError_online:
  assumes "rateLimitWindowStartTimestamp w = Some ws"
  shows "onNetworkError e True w
         = (RateLimitError (Some (Number (max 1 (ws + 60 - nowSec w)))) (Some (Number (ws + 60))),
            setRateLimitPause (Number (max 1 (ws + 60 - nowSec w))) (probed w))"
  using assms by (simp add: onNetworkError_def Let_def probed_frame)

lemma onNetworkError_offline: "onNetworkError e False w = (Rethrown e, probed w)"
  by (simp add: onNetworkError_def Let_def)

lemma probes_probed: "probes (probed w) = Suc (probes w)"
  by (simp add: probed_def)

lemma probes_setRateLimitPause: "probes (setRateLimitPause s w) = probes w"
  by (simp add: setRateLimitPause_def setTimeout_def Let_def)

text \<open>
  C8, as the code has it, over the catch block in the state \<open>w\<close> in which the failure is
  handled (its clock is the time of the failure, not the time the call began). The
  error carries no response, and its message contains \<^verbatim>\<open>NetworkError\<close>; the remaining
  count is known; \<open>ws\<close> is the window start. The probe is made. If it says reachable,
  the catch block throws a \<^verbatim>\<open>RateLimitError\<close> with reset time \<open>ws + 60\<close> and
  \<open>max 1 (ws + 60 - now)\<close> seconds to wait, the pause is set to now plus those seconds,
  and its timer is scheduled. If the probe says unreachable, the error is thrown on as
  it is, and neither the pause nor the timers change.
\<close>

theorem network_error_heuristic:
  assumes "response e = None" and "message e = Some m" and "includesStr m ''NetworkError''"
    and "remainingRequests w \<noteq> None"
    and "rateLimitWindowStartTimestamp w = Some ws"
  shows "(online \<longrightarrow>
            fst (onError e online w)
              = RateLimitError (Some (Number (max 1 (ws + 60 - nowSec w))))
                               (Some (Number (ws + 60)))
            \<and> retryAfterTimestamp (snd (onError e online w))
                = Some (Number (nowSec w + max 1 (ws + 60 - nowSec w)))
            \<and> timers (snd (onError e online w))
                = timers w @ [\<lparr>tHandle = nextHandle w,
                               tDue = nowMs w + (max 1 (ws + 60 - nowSec w) * 1000 + 100),
                               tAction = PauseExpiry\<rparr>])
       \<and> (\<not> online \<longrightarrow>
            fst (onError e online w) = Rethrown e
            \<and> retryAfterTimestamp (snd (onError e online w)) = retryAfterTimestamp w
            \<and> timers (snd (onError e online w)) = timers w)
       \<and> probes (snd (onError e online w)) = Suc (probes w)"
proof -
  have branch: "onError e b w = onNetworkError e b w" for b
    using assms by (simp add: onError_def Let_def)
  show ?thesis
  proof (cases online)
    case True
    have "onError e online w
          = (RateLimitError (Some (Number (max 1 (ws + 60 - nowSec w)))) (Some (Number (ws + 60))),
             setRateLimitPause (Number (max 1 (ws + 60 - nowSec w))) (probed w))"
      using True by (simp add: branch onNetworkError_online [OF assms(5)])
    with True show ?thesis
      by (simp add: setRateLimitPause_effect setRateLimitPause_frame probed_frame delayMs_def
          probes_probed probes_setRateLimitPause)
  next
    case False
    have "onError e online w = (Rethrown e, probed w)"
      using False by (simp add: branch onNetworkError_offline)
    with False show ?thesis
      by (simp add: probed_frame probes_probed)
  qed
qed

theorem network_error_heuristic_witness:
  "response firefoxNetworkError = None
   \<and> message firefoxNetworkError = Some ''NetworkError when attempting to fetch resource.''
   \<and> includesStr ''NetworkError when attempting to fetch resource.'' ''NetworkError''
   \<and> remainingRequests tenSecondsIn \<noteq> None
   \<and> rateLimitWindowStartTimestamp tenSecondsIn = Some 0
   \<and> nowSec tenSecondsIn = 10
   \<and> fst (onError firefoxNetworkError True tenSecondsIn)
      = RateLimitError (Some (Number 50)) (Some (Number 60))
   \<and> retryAfterTimestamp (snd (onError firefoxNetworkError True tenSecondsIn))
      = Some (Number 60)
   \<and> timers (snd (onError firefoxNetworkError True tenSecondsIn))
      = [\<lparr>tHandle = 1, tDue = 60100, tAction = PauseExpiry\<rparr>]
   \<and> fst (onError firefoxNetworkError False tenSecondsIn) = Rethrown firefoxNetworkError
   \<and> retryAfterTimestamp (snd (onError firefoxNetworkError False tenSecondsIn)) = None
   \<and> timers (snd (onError firefoxNetworkError False tenSecondsIn)) = []
   \<and> probes (snd (onError firefoxNetworkError True tenSecondsIn)) = 1"
proof -
  have e1: "response firefoxNetworkError = None"
    by (simp add: firefoxNetworkError_def)
  have e2: "message firefoxNetworkError = Some ''NetworkError when attempting to fetch resource.''"
    by (simp add: firefoxNetworkError_def)
  have e3: "includesStr ''NetworkError when attempting to fetch resource.'' ''NetworkError''"
    by (simp add: client_defs)
  have st: "tenSecondsIn = (initialWorld 0)\<lparr>rateLimitWindowStartTimestamp := Some 0, nowMs := 10000\<rparr>"
    by (simp add: tenSecondsIn_def runEvents_def onAttemptStart_def advanceTo_def initialWorld_def
        nowSec_def governor_defs Let_def)
  have w1: "remainingRequests tenSecondsIn \<noteq> None"
    by (simp add: st initialWorld_def)
  have w2: "rateLimitWindowStartTimestamp tenSecondsIn = Some 0"
    by (simp add: st)
  have w3: "nowSec tenSecondsIn = 10"
    by (simp add: st nowSec_def)
  have w4: "timers tenSecondsIn = [] \<and> nextHandle tenSecondsIn = 1 \<and> nowMs tenSecondsIn = 10000
            \<and> retryAfterTimestamp tenSecondsIn = None \<and> probes tenSecondsIn = 0"
    by (simp add: st initialWorld_def)
  note on = network_error_heuristic [OF e1 e2 e3 w1 w2, of True]
  note off = network_error_heuristic [OF e1 e2 e3 w1 w2, of False]
  from on have c1: "fst (onError firefoxNetworkError True tenSecondsIn)
      = RateLimitError (Some (Number 50)) (Some (Number 60))"
    by (simp add: w3)
  from on have c2: "retryAfterTimestamp (snd (onError firefoxNetworkError True tenSecondsIn))
      = Some (Number 60)"
    by (simp add: w3)
  from on have c3: "timers (snd (onError firefoxNetworkError True tenSecondsIn))
      = [\<lparr>tHandle = 1, tDue = 60100, tAction = PauseExpiry\<rparr>]"
    by (simp add: w3 w4)
  from off have c4: "fst (onError firefoxNetworkError False tenSecondsIn) = Rethrown firefoxNetworkError"
    by simp
  from off have c5: "retryAfterTimestamp (snd (onError firefoxNetworkError False tenSecondsIn)) = None"
    by (simp add: w4)
  from off have c6: "timers (snd (onError firefoxNetworkError False tenSecondsIn)) = []"
    by (simp add: w4)
  from on have c7: "probes (snd (onError firefoxNetworkError True tenSecondsIn)) = 1"
    by (simp add: w4)
  show ?thesis
    by (intro conjI) (rule e1 e2 e3 w1 w2 w3 c1 c2 c3 c4 c5 c6 c7)+
qed

text \<open>
  The claim as written speaks of every transport failure without a status. A failure
  whose message lacks \<^verbatim>\<open>NetworkError\<close> (\<^verbatim>\<open>Failed to fetch\<close>) is thrown on as it is, in the
  middle of a burst and with the network reachable: no probe, no pause.
\<close>

theorem transport_failure_without_marker_not_throttled:
  "response chromeFetchError = None
   \<and> remainingRequests burstWorld \<noteq> None
   \<and> rateLimitWindowStartTimestamp burstWorld \<noteq> None
   \<and> onError chromeFetchError True burstWorld = (Rethrown chromeFetchError, burstWorld)
   \<and> retryAfterTimestamp burstWorld = None
   \<and> timers burstWorld = []
   \<and> probes burstWorld = 0"
  by (simp add: client_defs example_defs governor_defs)

section \<open>The fields of the error thrown for a 429\<close>

text \<open>
  For a 429 response with headers, in the three cases of the header reading, as long as
  the reset time is one the log line can print: the fields of the \<^verbatim>\<open>RateLimitError\<close>.
\<close>

lemma throttling_fields_in_range:
  assumes "response e = Some r" and "status r = 429" and "respHeaders r = Some hs"
  shows "hs ''x-ratelimit-reset'' = Some v \<Longrightarrow> v \<noteq> [] \<Longrightarrow> parseInt v = Number T
           \<Longrightarrow> \<not> invalidDate (Number T)
           \<Longrightarrow> fst (request q (Rejected e) online w)
                = Inl (RateLimitError (Some (Number (max 1 (T - nowSec w)))) (Some (Number T)))"
    and "\<not> truthy (hs ''x-ratelimit-reset'') \<Longrightarrow> hs ''retry-after'' = Some v \<Longrightarrow> v \<noteq> []
           \<Longrightarrow> parseInt v = Number S \<Longrightarrow> \<not> invalidDate (Number (nowSec w + S))
           \<Longrightarrow> fst (request q (Rejected e) online w)
                = Inl (RateLimitError (Some (Number S)) (Some (Number (nowSec w + S))))"
    and "\<not> truthy (hs ''x-ratelimit-reset'') \<Longrightarrow> \<not> truthy (hs ''retry-after'')
           \<Longrightarrow> \<not> invalidDate (Number (nowSec w + 60))
           \<Longrightarrow> fst (request q (Rejected e) online w)
                = Inl (RateLimitError (Some (Number 60)) (Some (Number (nowSec w + 60))))"
proof -
  have branch: "onError e online w' = on429 hs w'" for w'
    using assms by (simp add: onError_def Let_def)
  show "hs ''x-ratelimit-reset'' = Some v \<Longrightarrow> v \<noteq> [] \<Longrightarrow> parseInt v = Number T
           \<Longrightarrow> \<not> invalidDate (Number T)
           \<Longrightarrow> fst (request q (Rejected e) online w)
                = Inl (RateLimitError (Some (Number (max 1 (T - nowSec w)))) (Some (Number T)))"
    by (simp add: request_Rejected branch on429_def Let_def truthy_def started_frame)
  show "\<not> truthy (hs ''x-ratelimit-reset'') \<Longrightarrow> hs ''retry-after'' = Some v \<Longrightarrow> v \<noteq> []
           \<Longrightarrow> parseInt v = Number S \<Longrightarrow> \<not> invalidDate (Number (nowSec w + S))
           \<Longrightarrow> fst (request q (Rejected e) online w)
                = Inl (RateLimitError (Some (Number S)) (Some (Number (nowSec w + S))))"
    by (simp add: request_Rejected branch on429_def Let_def truthy_def started_frame)
  show "\<not> truthy (hs ''x-ratelimit-reset'') \<Longrightarrow> \<not> truthy (hs ''retry-after'')
           \<Longrightarrow> \<not> invalidDate (Number (nowSec w + 60))
           \<Longrightarrow> fst (request q (Rejected e) online w)
                = Inl (RateLimitError (Some (Number 60)) (Some (Number (nowSec w + 60))))"
    by (simp add: request_Rejected branch on429_def Let_def started_frame)
qed

text \<open>
  C3. The claim gives the fields for every 429 with a reset header of value \<open>T\<close>. For
  \<open>T = 9000000000000\<close> (more than 8640000000000000 ms) the log line throws first: the call
  ends in a \<^verbatim>\<open>RangeError\<close>, no \<^verbatim>\<open>RateLimitError\<close> is thrown, and no pause is set.
\<close>

theorem reset_header_beyond_date_range:
  "request (GetTopAnime 10)
     (Rejected (tooManyRequests [''x-ratelimit-reset'' \<mapsto> ''9000000000000'']) :: unit net_outcome)
     True burstWorld
   = (Inl RangeError, burstWorld\<lparr>sent := [GetTopAnime 10]\<rparr>)
   \<and> retryAfterTimestamp (burstWorld\<lparr>sent := [GetTopAnime 10]\<rparr>) = None
   \<and> timers (burstWorld\<lparr>sent := [GetTopAnime 10]\<rparr>) = []"
  by (simp add: client_defs example_defs governor_defs parse_defs)

section \<open>The pause and the timers\<close>

text \<open>A pause of at least one second ends after the current second.\<close>

lemma pause_in_future_from_one_second:
  "1 \<le> n \<Longrightarrow> retryAfterTimestamp (setRateLimitPause (Number n) w) = Some (Number (nowSec w + n))
     \<and> nowSec w < nowSec w + n"
  by (simp add: setRateLimitPause_effect)

text \<open>
  C7. The claim puts the stored pause strictly after the current time on every path. A
  429 with \<^verbatim>\<open>retry-after: 0\<close> and no reset header, at second 100: the pause is stored as 100,
  which is not after the current second. (The reset-header path and the network-error
  path pass their seconds through \<^verbatim>\<open>Math.max(1, ...)\<close>; this path does not.)
\<close>

theorem retry_after_zero_pause_not_in_future:
  "fst (request (GetTopAnime 10)
          (Rejected (tooManyRequests [''retry-after'' \<mapsto> ''0'']) :: unit net_outcome) True burstWorld)
   = Inl (RateLimitError (Some (Number 0)) (Some (Number 100)))
   \<and> nowSec burstWorld = 100
   \<and> retryAfterTimestamp
        (snd (request (GetTopAnime 10)
                (Rejected (tooManyRequests [''retry-after'' \<mapsto> ''0'']) :: unit net_outcome) True
                burstWorld))
      = Some (Number 100)
   \<and> \<not> js_less (Number (nowSec burstWorld)) (Number 100)"
  by (simp add: client_defs example_defs governor_defs parse_defs)

text \<open>
  C6. The claim has the pending 60-second timer cancelled when a pause is set. A
  success at second 0 arms that timer for second 60; a 429 at second 30 with
  \<^verbatim>\<open>retry-after: 60\<close> sets the pause to second 90 and leaves the timer pending, next to the
  timer of the pause. At second 60 the old timer fires: the remaining count goes from 0
  to 30 while the pause still stands.
\<close>

theorem stale_reset_fires_during_pause:
  "map tAction (timers (runEvents stalePauseEvents (initialWorld 0))) = [CountReset, PauseExpiry]
   \<and> map tDue (timers (runEvents stalePauseEvents (initialWorld 0))) = [60000, 90100]
   \<and> retryAfterTimestamp (runEvents stalePauseEvents (initialWorld 0)) = Some (Number 90)
   \<and> remainingRequests (runEvents stalePauseEvents (initialWorld 0)) = Some (Number 0)
   \<and> nowSec (runEvents (stalePauseEvents @ [Elapse 30000]) (initialWorld 0)) = 60
   \<and> retryAfterTimestamp (runEvents (stalePauseEvents @ [Elapse 30000]) (initialWorld 0))
        = Some (Number 90)
   \<and> remainingRequests (runEvents (stalePauseEvents @ [Elapse 30000]) (initialWorld 0))
        = Some (Number 30)"
  by (simp add: stalePauseEvents_def runEvents_def client_defs example_defs governor_defs
      parse_defs timer_defs)

section \<open>The cached fetchers\<close>

lemma fetchTopAnimeIds_hit:
  "topAnimeIdsCache w count' = Some ids
     \<Longrightarrow> fetchTopAnimeIds count' out online writable w = (Inr ids, w)"
  by (simp add: fetchTopAnimeIds_def)

lemma fetchAnimeDetails_hit:
  "animeDetailsCache w animeId = Some d
     \<Longrightarrow> fetchAnimeDetails animeId out online writable w = (Inr d, w)"
  by (simp add: fetchAnimeDetails_def)

lemma fetchTopAnimeIds_miss:
  assumes "topAnimeIdsCache w count' = None"
    and "fetchTopAnimeIds count' out online writable w = (Inr ids, w')"
  shows "(\<exists>hs. out = Resolved hs (Some ids)) \<and> topAnimeIdsCache w' count' = Some ids
         \<and> sent w' = sent w @ [GetTopAnime count']"
proof (cases out)
  case (Rejected e)
  with assms show ?thesis
    by (simp add: fetchTopAnimeIds_def request_Rejected)
next
  case (Resolved hs d)
  with assms show ?thesis
    by (cases d)
       (auto simp: fetchTopAnimeIds_def request_Resolved saveTopAnimeIdsCache_def
          onResponse_frame started_frame)
qed

lemma fetchAnimeDetails_miss:
  assumes "animeDetailsCache w animeId = None"
    and "fetchAnimeDetails animeId out online writable w = (Inr d, w')"
  shows "(\<exists>hs. out = Resolved hs (Some d)) \<and> animeDetailsCache w' animeId = Some d
         \<and> sent w' = sent w @ [GetAnimeDetails animeId]"
proof (cases out)
  case (Rejected e)
  with assms show ?thesis
    by (simp add: fetchAnimeDetails_def request_Rejected)
next
  case (Resolved hs m)
  with assms show ?thesis
    by (cases m)
       (auto simp: fetchAnimeDetails_def request_Resolved saveAnimeDetailsCache_def
          onResponse_frame started_frame)
qed

text \<open>
  C9. With the key in the cache, \<^verbatim>\<open>fetchTopAnimeIds\<close> and \<^verbatim>\<open>fetchAnimeDetails\<close> return the
  cached value and leave the whole state as it was: nothing is sent, and the remaining
  count, the pause, the window start and the timers are untouched. With the key
  absent, a call that returns a value returns what the network call resolved with,
  has sent exactly that one query, and has stored the value under the same key.
\<close>

theorem cached_fetchers:
  "(topAnimeIdsCache w count' = Some ids \<longrightarrow>
      fetchTopAnimeIds count' out online writable w = (Inr ids, w))
   \<and> (animeDetailsCache w animeId = Some d \<longrightarrow>
      fetchAnimeDetails animeId out' online writable w = (Inr d, w))
   \<and> (topAnimeIdsCache w count'' = None
        \<and> fetchTopAnimeIds count'' out2 online writable w = (Inr ids', w1) \<longrightarrow>
      (\<exists>hs. out2 = Resolved hs (Some ids')) \<and> topAnimeIdsCache w1 count'' = Some ids'
        \<and> sent w1 = sent w @ [GetTopAnime count''])
   \<and> (animeDetailsCache w animeId' = None
        \<and> fetchAnimeDetails animeId' out3 online writable w = (Inr d', w2) \<longrightarrow>
      (\<exists>hs. out3 = Resolved hs (Some d')) \<and> animeDetailsCache w2 animeId' = Some d'
        \<and> sent w2 = sent w @ [GetAnimeDetails animeId'])"
proof (intro conjI impI)
  assume "topAnimeIdsCache w count' = Some ids"
  then show "fetchTopAnimeIds count' out online writable w = (Inr ids, w)"
    by (rule fetchTopAnimeIds_hit)
next
  assume "animeDetailsCache w animeId = Some d"
  then show "fetchAnimeDetails animeId out' online writable w = (Inr d, w)"
    by (rule fetchAnimeDetails_hit)
next
  assume a: "topAnimeIdsCache w count'' = None
        \<and> fetchTopAnimeIds count'' out2 online writable w = (Inr ids', w1)"
  note m = fetchTopAnimeIds_miss [OF conjunct1 [OF a] conjunct2 [OF a]]
  show "\<exists>hs. out2 = Resolved hs (Some ids')" using m by simp
  show "topAnimeIdsCache w1 count'' = Some ids'" using m by simp
  show "sent w1 = sent w @ [GetTopAnime count'']" using m by simp
next
  assume a: "animeDetailsCache w animeId' = None
        \<and> fetchAnimeDetails animeId' out3 online writable w = (Inr d', w2)"
  note m = fetchAnimeDetails_miss [OF conjunct1 [OF a] conjunct2 [OF a]]
  show "\<exists>hs. out3 = Resolved hs (Some d')" using m by simp
  show "animeDetailsCache w2 animeId' = Some d'" using m by simp
  show "sent w2 = sent w @ [GetAnimeDetails animeId']" using m by simp
qed

theorem cached_fetchers_witness:
  "topAnimeIdsCache cachedWorld 50 = Some [1, 2, 3]
   \<and> fetchTopAnimeIds 50 (Rejected serverError) True True cachedWorld = (Inr [1, 2, 3], cachedWorld)
   \<and> animeDetailsCache cachedWorld 7 = Some sampleDetails
   \<and> fetchAnimeDetails 7 (Rejected serverError) True True cachedWorld
       = (Inr sampleDetails, cachedWorld)
   \<and> topAnimeIdsCache cachedWorld 20 = None
   \<and> fst (fetchTopAnimeIds 20 (Resolved Map.empty (Some [5, 6])) True True cachedWorld)
       = Inr [5, 6]
   \<and> topAnimeIdsCache
        (snd (fetchTopAnimeIds 20 (Resolved Map.empty (Some [5, 6])) True True cachedWorld)) 20
       = Some [5, 6]
   \<and> animeDetailsCache cachedWorld 8 = None
   \<and> fst (fetchAnimeDetails 8 (Resolved Map.empty (Some sampleDetails)) True True cachedWorld)
       = Inr sampleDetails
   \<and> animeDetailsCache
        (snd (fetchAnimeDetails 8 (Resolved Map.empty (Some sampleDetails)) True True cachedWorld)) 8
       = Some sampleDetails"
  using cached_fetchers
    [of cachedWorld 50 "[1, 2, 3]" "Rejected serverError" True True 7 sampleDetails
        "Rejected serverError" 20 "Resolved Map.empty (Some [5, 6])" "[5, 6]"
        "snd (fetchTopAnimeIds 20 (Resolved Map.empty (Some [5, 6])) True True cachedWorld)"
        8 "Resolved Map.empty (Some sampleDetails)" sampleDetails
        "snd (fetchAnimeDetails 8 (Resolved Map.empty (Some sampleDetails)) True True cachedWorld)"]
  by (simp add: cachedWorld_def fetchTopAnimeIds_def fetchAnimeDetails_def request_Resolved)

section \<open>The 60-second timer is replaced, never stacked\<close>

lemma timersOk_one_reset:
  assumes "timersOk w"
  shows "length (pendingCountResets w) \<le> 1"
proof -
  have d: "distinct (map tHandle (pendingCountResets w))"
    using assms by (simp add: timersOk_def pendingCountResets_def distinct_map_filter)
  have held: "rateLimitResetTimer w = Some (tHandle a)" if "a \<in> set (pendingCountResets w)" for a
    using that assms by (simp add: timersOk_def pendingCountResets_def)
  show ?thesis
  proof (cases "pendingCountResets w")
    case Nil
    then show ?thesis by simp
  next
    case (Cons a rest)
    show ?thesis
    proof (cases rest)
      case Nil
      with Cons show ?thesis by simp
    next
      case (Cons b rest')
      with \<open>pendingCountResets w = a # rest\<close> held [of a] held [of b] d show ?thesis by simp
    qed
  qed
qed

lemma timersOk_onAttemptStart: "timersOk w \<Longrightarrow> timersOk (onAttemptStart w)"
  by (simp add: timersOk_def onAttemptStart_def)

lemma timersOk_decrementRemaining: "timersOk w \<Longrightarrow> timersOk (decrementRemaining w)"
  by (simp add: timersOk_def decrementRemaining_def split: option.splits)

lemma timersOk_setRateLimitPause: "timersOk w \<Longrightarrow> timersOk (setRateLimitPause s w)"
  by (auto simp: timersOk_def setRateLimitPause_def setTimeout_def Let_def less_Suc_eq)

lemma timersOk_probed: "timersOk w \<Longrightarrow> timersOk (probed w)"
  by (simp add: timersOk_def probed_def)

lemma timersOk_readRemainingHeader: "timersOk w \<Longrightarrow> timersOk (readRemainingHeader hs w)"
  by (simp add: timersOk_def readRemainingHeader_def Let_def)

text \<open>Clearing leaves no 60-second timer pending; arming then adds exactly one.\<close>

lemma timersOk_clearResetTimer:
  assumes "timersOk w"
  shows "timersOk (clearResetTimer w) \<and> pendingCountResets (clearResetTimer w) = []"
proof (cases "rateLimitResetTimer w")
  case None
  with assms have "\<forall>tm \<in> set (timers w). tAction tm \<noteq> CountReset"
    by (auto simp: timersOk_def)
  with None assms show ?thesis
    by (simp add: clearResetTimer_def pendingCountResets_def filter_empty_conv)
next
  case (Some h)
  with assms have "\<forall>tm \<in> set (timers w). tAction tm = CountReset \<longrightarrow> tHandle tm = h"
    by (auto simp: timersOk_def)
  with Some assms show ?thesis
    by (auto simp: clearResetTimer_def clearTimeout_def timersOk_def pendingCountResets_def
        distinct_map_filter filter_empty_conv)
qed

lemma timersOk_armResetTimer:
  assumes "timersOk w" and "pendingCountResets w = []"
  shows "timersOk (armResetTimer w)"
proof -
  from assms(2) have "\<forall>tm \<in> set (timers w). tAction tm \<noteq> CountReset"
    by (simp add: pendingCountResets_def filter_empty_conv)
  with assms(1) show ?thesis
    by (auto simp: timersOk_def armResetTimer_def setTimeout_def less_Suc_eq)
qed

lemma timersOk_updateRateLimitState:
  assumes "timersOk w"
  shows "timersOk (updateRateLimitState hs w)"
proof -
  note c = timersOk_clearResetTimer [OF timersOk_readRemainingHeader [OF assms, of hs]]
  from c have ok: "timersOk (clearResetTimer (readRemainingHeader hs w))" by (rule conjunct1)
  from c have none: "pendingCountResets (clearResetTimer (readRemainingHeader hs w)) = []"
    by (rule conjunct2)
  show ?thesis
    using ok timersOk_armResetTimer [OF ok none]
    by (simp add: updateRateLimitState_def Let_def)
qed

lemma timersOk_onError: "timersOk w \<Longrightarrow> timersOk (snd (onError e online w))"
  using onError_cases [of e online w]
  by (elim disjE conjE exE) (simp_all add: timersOk_setRateLimitPause timersOk_probed)

lemma timers_fire: "timers (fire w tm) = filter (\<lambda>t. tHandle t \<noteq> tHandle tm) (timers w)"
  by (cases "tAction tm") (simp_all add: fire_def)

lemma timersOk_fire:
  assumes "timersOk w" and "tm \<in> set (timers w)"
  shows "timersOk (fire w tm)"
proof (cases "tAction tm")
  case PauseExpiry
  with assms(1) show ?thesis
    by (auto simp: timersOk_def fire_def distinct_map_filter)
next
  case CountReset
  with assms have h: "rateLimitResetTimer w = Some (tHandle tm)"
    by (simp add: timersOk_def)
  have "tAction tm' \<noteq> CountReset"
    if "tm' \<in> set (timers w)" and "tHandle tm' \<noteq> tHandle tm" for tm'
    using that assms(1) h by (auto simp: timersOk_def)
  with assms(1) CountReset show ?thesis
    by (auto simp: timersOk_def fire_def distinct_map_filter)
qed

lemma timersOk_foldl_fire:
  "timersOk w \<Longrightarrow> set tms \<subseteq> set (timers w) \<Longrightarrow> distinct tms
     \<Longrightarrow> timersOk (foldl fire w tms)"
proof (induction tms arbitrary: w)
  case Nil
  then show ?case by simp
next
  case (Cons tm rest)
  from Cons.prems have tm: "tm \<in> set (timers w)" by simp
  have ok: "timersOk (fire w tm)" by (rule timersOk_fire [OF Cons.prems(1) tm])
  have "tHandle t \<noteq> tHandle tm" if "t \<in> set rest" for t
  proof
    assume eq: "tHandle t = tHandle tm"
    from that Cons.prems(2) have "t \<in> set (timers w)" by auto
    with tm eq Cons.prems(1) have "t = tm"
      by (auto simp: timersOk_def distinct_map inj_on_def)
    with that Cons.prems(3) show False by simp
  qed
  with Cons.prems(2) have sub: "set rest \<subseteq> set (timers (fire w tm))"
    by (auto simp: timers_fire)
  from Cons.prems(3) have "distinct rest" by simp
  from Cons.IH [OF ok sub this] show ?case by simp
qed

lemma timersOk_advanceTo:
  assumes "timersOk w"
  shows "timersOk (advanceTo t w)"
proof -
  let ?due = "sort_key tDue (filter (\<lambda>tm. tDue tm \<le> t) (timers w))"
  have sub: "set ?due \<subseteq> set (timers w)" by auto
  have "distinct (timers w)" using assms by (simp add: timersOk_def distinct_map)
  then have d: "distinct ?due" by simp
  have "timersOk (foldl fire w ?due)" by (rule timersOk_foldl_fire [OF assms sub d])
  then show ?thesis by (simp add: advanceTo_def Let_def timersOk_def)
qed

lemma timersOk_applyEvent: "timersOk w \<Longrightarrow> timersOk (applyEvent w ev)"
  by (cases ev)
     (simp_all add: timersOk_onAttemptStart timersOk_setRateLimitPause timersOk_advanceTo
        timersOk_onError onResponse_def timersOk_decrementRemaining timersOk_updateRateLimitState)

lemma timersOk_runEvents: "timersOk w \<Longrightarrow> timersOk (runEvents evs w)"
  unfolding runEvents_def
  by (induction evs arbitrary: w) (simp_all add: timersOk_applyEvent)

text \<open>
  What does hold of the timers: after any sequence of events at most one 60-second
  timer is pending. The timers of the pauses are not covered: nothing cancels them.
\<close>

lemma fallback_timer_not_stacked:
  "length (pendingCountResets (runEvents evs (initialWorld t))) \<le> 1"
proof -
  have "timersOk (initialWorld t)" by (simp add: timersOk_def initialWorld_def)
  then have "timersOk (runEvents evs (initialWorld t))" by (rule timersOk_runEvents)
  then show ?thesis by (rule timersOk_one_reset)
qed

section \<open>The retry loop\<close>

lemma loop_success:
  "attempts < maxAttempts \<Longrightarrow> attempt p (envs attempts) w = (Inr q, w1)
     \<Longrightarrow> attemptsLoop p envs attempts w = (Inr q, w1, attempts)"
  by (subst attemptsLoop.simps) simp
















section \<open>The question that is returned\<close>

lemma elemAt_mem: "elemAt xs i = Some x \<Longrightarrow> x \<in> set xs"
  by (auto simp: elemAt_def split: if_splits)

lemma elemAt_nth: "elemAt xs i = Some x \<Longrightarrow> 0 \<le> i \<and> nat i < length xs \<and> x = xs ! nat i"
  by (auto simp: elemAt_def split: if_splits)

text \<open>One pass of the loop keeps the selection in order and adds at most one character.\<close>

lemma selectFor_ok:
  assumes "selectionOk st (animeId # rest)" and "selectFor mediaMap r animeId st = Inr st'"
  shows "selectionOk st' rest \<and> length (selectedCharsBase st') \<le> Suc (length (selectedCharsBase st))"
proof (cases "st' = st")
  case True
  with assms(1) show ?thesis by (auto simp: selectionOk_def)
next
  case False
  with assms(2) obtain cs c where
    c: "c \<in> set (filter (\<lambda>c. charId c \<notin> usedCharIds st) cs)"
    and st': "st' = st\<lparr>usedCharIds := insert (charId c) (usedCharIds st),
                        selectedCharsBase := selectedCharsBase st @ [c],
                        originAnimeIds := originAnimeIds st @ [animeId]\<rparr>"
    by (auto simp: selectFor_def Let_def split: option.splits if_splits dest: elemAt_mem)
  from c have "charId c \<notin> usedCharIds st" by simp
  with assms(1) show ?thesis
    unfolding st' by (auto simp: selectionOk_def)
qed

lemma selectionOk_done: "selectionOk st rest \<Longrightarrow> selectionOk st []"
  by (simp add: selectionOk_def)

lemma selectLoop_ok:
  "selectLoop mediaMap draws i ids st = Inr st' \<Longrightarrow> selectionOk st ids
     \<Longrightarrow> length (selectedCharsBase st) < 4
     \<Longrightarrow> selectionOk st' [] \<and> length (selectedCharsBase st') \<le> 4"
proof (induction ids arbitrary: i st)
  case Nil
  then show ?case by simp
next
  case (Cons animeId rest)
  from Cons.prems(1) obtain st1 where
    sf: "selectFor mediaMap (draws i) animeId st = Inr st1"
    and k: "(if length (selectedCharsBase st1) = 4 then Inr st1
             else selectLoop mediaMap draws (Suc i) rest st1) = Inr st'"
    by (auto split: sum.splits)
  from selectFor_ok [OF Cons.prems(2) sf]
  have ok1: "selectionOk st1 rest"
    and len1: "length (selectedCharsBase st1) \<le> Suc (length (selectedCharsBase st))"
    by simp_all
  show ?case
  proof (cases "length (selectedCharsBase st1) = 4")
    case True
    with k ok1 show ?thesis by (auto intro: selectionOk_done)
  next
    case False
    with k have rec: "selectLoop mediaMap draws (Suc i) rest st1 = Inr st'" by simp
    from False len1 Cons.prems(3) have "length (selectedCharsBase st1) < 4" by simp
    from Cons.IH [OF rec ok1 this] show ?thesis .
  qed
qed

lemma chooseCharacters_ok:
  assumes "chooseCharacters selectedAnimeIds env w = (Inr st, w')"
    and "distinct selectedAnimeIds"
  shows "selectionOk st [] \<and> length (selectedCharsBase st) = 4"
proof -
  from assms(1) obtain mediaMap where
    loop: "selectLoop mediaMap (pickDraws env) 0 selectedAnimeIds emptySelection = Inr st"
    and len: "\<not> length (selectedCharsBase st) < 4"
    by (auto simp: chooseCharacters_def Let_def split: prod.splits sum.splits option.splits if_splits)
  have "selectionOk emptySelection selectedAnimeIds"
    using assms(2) by (simp add: selectionOk_def emptySelection_def)
  from selectLoop_ok [OF loop this] len show ?thesis
    by (simp add: emptySelection_def)
qed

text \<open>
  The shuffle yields a rearrangement of its argument, and every rearrangement of the
  argument is the result of some draws.
\<close>

lemma mset_without_nth:
  assumes "i < length xs"
  shows "mset (take i xs @ drop (Suc i) xs) + {#xs ! i#} = mset xs"
proof -
  have "mset xs = mset (take i xs @ xs ! i # drop (Suc i) xs)"
    using id_take_nth_drop [OF assms] by simp
  then show ?thesis by simp
qed

lemma mset_shuffle: "mset (shuffle ks xs) = mset xs"
proof (induction ks arbitrary: xs)
  case Nil
  show ?case by simp
next
  case (Cons k ks)
  show ?case
  proof (cases "xs = []")
    case True
    then show ?thesis by simp
  next
    case False
    then have i: "k mod length xs < length xs" by simp
    from False Cons.IH mset_without_nth [OF i] show ?thesis
      by (simp add: Let_def)
  qed
qed

lemma shuffle_onto: "mset ys = mset xs \<Longrightarrow> \<exists>ks. shuffle ks xs = ys"
proof (induction ys arbitrary: xs)
  case Nil
  then have "shuffle [] xs = []" by simp
  then show ?case by (rule exI)
next
  case (Cons y ys)
  then have "y \<in> set xs" by (metis list.set_intros(1) mset_eq_setD)
  then obtain i where i: "i < length xs" and y: "xs ! i = y"
    by (auto simp: in_set_conv_nth)
  let ?rest = "take i xs @ drop (Suc i) xs"
  from mset_without_nth [OF i] y Cons.prems
  have "add_mset y (mset ?rest) = add_mset y (mset ys)" by simp
  then have "mset ys = mset ?rest" by simp
  from Cons.IH [OF this] obtain ks where ks: "shuffle ks ?rest = ys" ..
  from i have ne: "xs \<noteq> []" by auto
  from i have "i mod length xs = i" by simp
  with ne ks y have "shuffle (i # ks) xs = y # ys" by (simp add: Let_def)
  then show ?case by (rule exI)
qed

lemma distinct_shuffle: "distinct xs \<Longrightarrow> distinct (shuffle ks xs)"
  by (metis mset_shuffle mset_eq_imp_distinct_iff)

lemma charId_withTitle: "charId (withTitle titleMap originIds ic) = charId (snd ic)"
  by (cases ic) (simp add: withTitle_def)

lemma map_charId_withTitle:
  "map charId (map (withTitle titleMap originIds) (enumerate n cs)) = map charId cs"
proof -
  have "charId \<circ> withTitle titleMap originIds = charId \<circ> snd"
    by (rule ext) (simp add: charId_withTitle)
  then have "map charId (map (withTitle titleMap originIds) (enumerate n cs))
          = map (charId \<circ> snd) (enumerate n cs)"
    by simp
  also have "\<dots> = map charId (map snd (enumerate n cs))"
    by (simp only: map_map)
  also have "\<dots> = map charId cs"
    by (simp only: map_snd_enumerate)
  finally show ?thesis .
qed

lemma assemble_result:
  assumes "assemble st env w = (Inr q, w')"
  shows "map charId (characters q) = map charId (selectedCharsBase st)
         \<and> origins q = originAnimeIds st
         \<and> (\<exists>i. i < length (characters q) \<and> i < length (origins q)
                \<and> correctCharacterId q = charId (characters q ! i)
                \<and> correctAnimeId q = origins q ! i)
         \<and> sent w' = sent w @ [GetTitlesBatch (originAnimeIds st)]"
proof -
  let ?req = "request (GetTitlesBatch (originAnimeIds st)) (titlesOut env) (titlesOnline env) w"
  from assms obtain media where
    r: "?req = (Inr (Some media), w')"
    by (auto simp: assemble_def Let_def split: prod.splits sum.splits option.splits)
  let ?cs = "map (withTitle (newMap media) (originAnimeIds st)) (enumerate 0 (selectedCharsBase st))"
  let ?i = "randomIndex (correctDraw env) (length ?cs)"
  from assms r obtain c a where
    c: "elemAt ?cs ?i = Some c" and a: "elemAt (originAnimeIds st) ?i = Some a"
    and q: "q = \<lparr>characters = ?cs, correctCharacterId = charId c, correctAnimeId = a,
                 origins = originAnimeIds st\<rparr>"
    by (auto simp: assemble_def Let_def split: option.splits)
  have sent: "sent w' = sent w @ [GetTitlesBatch (originAnimeIds st)]"
    using sent_request [of "GetTitlesBatch (originAnimeIds st)" "titlesOut env" "titlesOnline env" w] r
    by simp
  from elemAt_nth [OF c] elemAt_nth [OF a]
  have "nat ?i < length (characters q) \<and> nat ?i < length (origins q)
        \<and> correctCharacterId q = charId (characters q ! nat ?i)
        \<and> correctAnimeId q = origins q ! nat ?i"
    unfolding q by simp
  then have ex: "\<exists>i. i < length (characters q) \<and> i < length (origins q)
                \<and> correctCharacterId q = charId (characters q ! i)
                \<and> correctAnimeId q = origins q ! i"
    by (rule exI)
  have "map charId (characters q) = map charId (selectedCharsBase st)"
    unfolding q by (simp only: question.simps map_charId_withTitle)
  with ex sent show ?thesis
    unfolding q by simp
qed

lemma request_Inr:
  "request q out online w = (Inr d, w1) \<Longrightarrow> \<exists>hs. out = Resolved hs d"
  by (cases out) (simp_all add: request_Resolved request_Rejected)

lemma fetchPool_success:
  assumes "fetchPool p env w = (Inr animeIds, w1)"
  shows "\<exists>hs. poolOut env = Resolved hs (Some animeIds)"
proof -
  from assms have "request (poolQuery p) (poolOut env) (poolOnline env) w = (Inr (Some animeIds), w1)"
    by (auto simp: fetchPool_def split: prod.splits sum.splits option.splits if_splits)
  then show ?thesis by (rule request_Inr)
qed

lemma attempt_ok:
  assumes "attempt p env w = (Inr q, w')"
    and "\<forall>hs ids. poolOut env = Resolved hs (Some ids) \<longrightarrow> distinct ids"
  shows "length (characters q) = 4 \<and> distinct (map charId (characters q))
         \<and> length (origins q) = 4 \<and> distinct (origins q)
         \<and> (\<exists>i<4. correctCharacterId q = charId (characters q ! i)
                   \<and> correctAnimeId q = origins q ! i)
         \<and> sent w' \<noteq> [] \<and> last (sent w') = GetTitlesBatch (origins q)"
proof -
  from assms(1) obtain animeIds w1 st w2 where
    pool: "fetchPool p env w = (Inr animeIds, w1)"
    and choose: "chooseCharacters (take 4 (shuffle (shuffleDraws env) animeIds)) env w1 = (Inr st, w2)"
    and asm: "assemble st env w2 = (Inr q, w')"
    by (auto simp: attempt_def Let_def split: prod.splits sum.splits)
  from fetchPool_success [OF pool] obtain hs where
    "poolOut env = Resolved hs (Some animeIds)" ..
  with assms(2) have "distinct animeIds" by simp
  then have "distinct (take 4 (shuffle (shuffleDraws env) animeIds))"
    by (simp add: distinct_shuffle)
  from chooseCharacters_ok [OF choose this]
  have ok: "selectionOk st []" and len: "length (selectedCharsBase st) = 4" by simp_all
  note ar = assemble_result [OF asm]
  have ids: "map charId (characters q) = map charId (selectedCharsBase st)"
    using ar by (elim conjE)
  have org: "origins q = originAnimeIds st"
    using ar by (elim conjE)
  have ex: "\<exists>i. i < length (characters q) \<and> i < length (origins q)
                \<and> correctCharacterId q = charId (characters q ! i)
                \<and> correctAnimeId q = origins q ! i"
    using ar by (elim conjE)
  have sent: "sent w' = sent w2 @ [GetTitlesBatch (originAnimeIds st)]"
    using ar by (elim conjE)
  have lc: "length (characters q) = 4"
    using ids len by (metis length_map)
  have lo: "length (origins q) = 4"
    using ok len org by (simp add: selectionOk_def)
  have dc: "distinct (map charId (characters q))"
    using ok ids by (simp add: selectionOk_def)
  have do: "distinct (origins q)"
    using ok org by (simp add: selectionOk_def)
  from ex lc have ex4: "\<exists>i<4. correctCharacterId q = charId (characters q ! i)
                   \<and> correctAnimeId q = origins q ! i"
    by auto
  from lc lo dc do ex4 sent org show ?thesis by simp
qed

text \<open>
  Where the options come from: each chosen character is in the list the batch gave for
  the anime recorded as its origin, and the origins are among the selected ids.
\<close>

lemma selectFor_from:
  assumes "selectionFrom mediaMap st" and "selectFor mediaMap r animeId st = Inr st'"
    and "set (originAnimeIds st) \<subseteq> S" and "animeId \<in> S"
  shows "selectionFrom mediaMap st' \<and> set (originAnimeIds st') \<subseteq> S"
proof (cases "st' = st")
  case True
  with assms show ?thesis by simp
next
  case False
  with assms(2) obtain cs c where
    cs: "mediaMap animeId = Some cs"
    and c: "c \<in> set (filter (\<lambda>c. charId c \<notin> usedCharIds st) cs)"
    and st': "st' = st\<lparr>usedCharIds := insert (charId c) (usedCharIds st),
                        selectedCharsBase := selectedCharsBase st @ [c],
                        originAnimeIds := originAnimeIds st @ [animeId]\<rparr>"
    by (auto simp: selectFor_def Let_def split: option.splits if_splits dest: elemAt_mem)
  from c have "c \<in> set cs" by simp
  with cs have new: "list_all2 (\<lambda>c a. \<exists>cs. mediaMap a = Some cs \<and> c \<in> set cs) [c] [animeId]"
    by simp
  from assms(1) have old: "list_all2 (\<lambda>c a. \<exists>cs. mediaMap a = Some cs \<and> c \<in> set cs)
      (selectedCharsBase st) (originAnimeIds st)"
    by (simp add: selectionFrom_def)
  have "selectionFrom mediaMap st'"
    unfolding st' selectionFrom_def using list_all2_appendI [OF old new] by simp
  moreover have "set (originAnimeIds st') \<subseteq> S"
    unfolding st' using assms(3,4) by simp
  ultimately show ?thesis by simp
qed

lemma selectLoop_from:
  "selectLoop mediaMap draws i ids st = Inr st' \<Longrightarrow> selectionFrom mediaMap st
     \<Longrightarrow> set (originAnimeIds st) \<subseteq> S \<Longrightarrow> set ids \<subseteq> S
     \<Longrightarrow> selectionFrom mediaMap st' \<and> set (originAnimeIds st') \<subseteq> S"
proof (induction ids arbitrary: i st)
  case Nil
  then show ?case by simp
next
  case (Cons animeId rest)
  from Cons.prems(1) obtain st1 where
    sf: "selectFor mediaMap (draws i) animeId st = Inr st1"
    and k: "(if length (selectedCharsBase st1) = 4 then Inr st1
             else selectLoop mediaMap draws (Suc i) rest st1) = Inr st'"
    by (auto split: sum.splits)
  from Cons.prems(4) have inS: "animeId \<in> S" and restS: "set rest \<subseteq> S" by simp_all
  from selectFor_from [OF Cons.prems(2) sf Cons.prems(3) inS]
  have from1: "selectionFrom mediaMap st1" and sub1: "set (originAnimeIds st1) \<subseteq> S"
    by simp_all
  show ?case
  proof (cases "length (selectedCharsBase st1) = 4")
    case True
    with k from1 sub1 show ?thesis by simp
  next
    case False
    with k have rec: "selectLoop mediaMap draws (Suc i) rest st1 = Inr st'" by simp
    from Cons.IH [OF rec from1 sub1 restS] show ?thesis .
  qed
qed

lemma chooseCharacters_from:
  assumes "chooseCharacters selectedAnimeIds env w = (Inr st, w')"
  shows "\<exists>hs media. charsOut env = Resolved hs (Some media)
           \<and> selectionFrom (mediaMapOf media) st
           \<and> set (originAnimeIds st) \<subseteq> set selectedAnimeIds"
proof -
  let ?req = "request (GetCharactersBatch selectedAnimeIds) (charsOut env) (charsOnline env) w"
  from assms obtain media w1 where
    r: "?req = (Inr (Some media), w1)"
    and loop: "selectLoop (mediaMapOf media) (pickDraws env) 0 selectedAnimeIds emptySelection
                 = Inr st"
    by (auto simp: chooseCharacters_def Let_def split: prod.splits sum.splits option.splits if_splits)
  from request_Inr [OF r] obtain hs where out: "charsOut env = Resolved hs (Some media)" ..
  have e: "selectionFrom (mediaMapOf media) emptySelection"
    by (simp add: selectionFrom_def emptySelection_def)
  have s: "set (originAnimeIds emptySelection) \<subseteq> set selectedAnimeIds"
    by (simp add: emptySelection_def)
  from selectLoop_from [OF loop e s] out show ?thesis by simp
qed

lemma selectionFrom_batch:
  assumes "charsOut env = Resolved hs (Some media)" and "selectionFrom (mediaMapOf media) st"
    and "i < length (selectedCharsBase st)"
  shows "selectedCharsBase st ! i \<in> set (batchCharacters env (originAnimeIds st ! i))"
proof -
  from assms(2) have "list_all2 (\<lambda>c a. \<exists>cs. mediaMapOf media a = Some cs \<and> c \<in> set cs)
      (selectedCharsBase st) (originAnimeIds st)"
    by (simp add: selectionFrom_def)
  from list_all2_nthD [OF this assms(3)]
  obtain cs where "mediaMapOf media (originAnimeIds st ! i) = Some cs"
    and "selectedCharsBase st ! i \<in> set cs"
    by auto
  with assms(1) show ?thesis by (simp add: batchCharacters_def)
qed

lemma mediaMapOf_hasImage:
  assumes "mediaMapOf media a = Some cs" and "c \<in> set cs"
  shows "hasImage c"
proof -
  from assms(1) have "(a, cs) \<in> set (map (\<lambda>(mid, nodes). (mid, filter hasImage nodes)) media)"
    by (auto simp: mediaMapOf_def newMap_def dest: map_of_SomeD)
  then obtain nodes where "cs = filter hasImage nodes" by auto
  with assms(2) show ?thesis by simp
qed

lemma batchCharacters_hasImage:
  assumes "c \<in> set (batchCharacters env a)"
  shows "hasImage c"
proof (cases "charsOut env")
  case (Rejected e)
  with assms show ?thesis by (simp add: batchCharacters_def)
next
  case (Resolved hs d)
  show ?thesis
  proof (cases d)
    case None
    with assms Resolved show ?thesis by (simp add: batchCharacters_def)
  next
    case (Some media)
    show ?thesis
    proof (cases "mediaMapOf media a")
      case None
      with assms Resolved Some show ?thesis by (simp add: batchCharacters_def)
    next
      case cs: (Some cs)
      with assms Resolved Some have "c \<in> set cs" by (simp add: batchCharacters_def)
      with cs show ?thesis by (rule mediaMapOf_hasImage)
    qed
  qed
qed

lemma baseOf_withTitle: "baseOf (withTitle titleMap originIds ic) = snd ic"
  by (cases ic) (simp add: withTitle_def baseOf_def)

lemma map_baseOf_withTitle:
  "map baseOf (map (withTitle titleMap originIds) (enumerate n cs)) = cs"
proof -
  have "baseOf \<circ> withTitle titleMap originIds = snd"
    by (rule ext) (simp add: baseOf_withTitle)
  then have "map baseOf (map (withTitle titleMap originIds) (enumerate n cs))
          = map snd (enumerate n cs)"
    by simp
  then show ?thesis by (simp only: map_snd_enumerate)
qed

lemma animeTitle_withTitle:
  "i < length cs \<Longrightarrow> i < length originIds
     \<Longrightarrow> animeTitle (map (withTitle titleMap originIds) (enumerate 0 cs) ! i)
          = titleMap (originIds ! i)"
  by (simp add: withTitle_def nth_enumerate_eq)

lemma assemble_options:
  assumes "assemble st env w = (Inr q, w')"
  shows "map baseOf (characters q) = selectedCharsBase st
         \<and> (\<forall>i. i < length (selectedCharsBase st) \<and> i < length (originAnimeIds st) \<longrightarrow>
               animeTitle (characters q ! i) = batchTitle env (originAnimeIds st ! i))"
proof -
  let ?req = "request (GetTitlesBatch (originAnimeIds st)) (titlesOut env) (titlesOnline env) w"
  from assms obtain media where
    r: "?req = (Inr (Some media), w')"
    by (auto simp: assemble_def Let_def split: prod.splits sum.splits option.splits)
  from request_Inr [OF r] obtain hs where out: "titlesOut env = Resolved hs (Some media)" ..
  let ?cs = "map (withTitle (newMap media) (originAnimeIds st)) (enumerate 0 (selectedCharsBase st))"
  from assms r have q: "characters q = ?cs"
    by (auto simp: assemble_def Let_def split: option.splits)
  have t: "batchTitle env a = newMap media a" for a
    using out by (simp add: batchTitle_def)
  have "map baseOf (characters q) = selectedCharsBase st"
    unfolding q by (rule map_baseOf_withTitle)
  moreover have "\<forall>i. i < length (selectedCharsBase st) \<and> i < length (originAnimeIds st) \<longrightarrow>
               animeTitle (characters q ! i) = batchTitle env (originAnimeIds st ! i)"
  proof (intro allI impI)
    fix i assume "i < length (selectedCharsBase st) \<and> i < length (originAnimeIds st)"
    then show "animeTitle (characters q ! i) = batchTitle env (originAnimeIds st ! i)"
      unfolding q t by (simp only: animeTitle_withTitle)
  qed
  ultimately show ?thesis by simp
qed

lemma attempt_from:
  assumes "attempt p env w = (Inr q, w')"
  shows "(\<exists>hs ids. poolOut env = Resolved hs (Some ids) \<and> set (origins q) \<subseteq> set ids)
         \<and> (\<forall>i<length (characters q).
               baseOf (characters q ! i) \<in> set (batchCharacters env (origins q ! i))
               \<and> animeTitle (characters q ! i) = batchTitle env (origins q ! i))"
proof -
  from assms(1) obtain animeIds w1 st w2 where
    pool: "fetchPool p env w = (Inr animeIds, w1)"
    and choose: "chooseCharacters (take 4 (shuffle (shuffleDraws env) animeIds)) env w1 = (Inr st, w2)"
    and asm: "assemble st env w2 = (Inr q, w')"
    by (auto simp: attempt_def Let_def split: prod.splits sum.splits)
  from fetchPool_success [OF pool] obtain hs where
    out: "poolOut env = Resolved hs (Some animeIds)" ..
  from chooseCharacters_from [OF choose] obtain hs' media where
    batch: "charsOut env = Resolved hs' (Some media)"
    and sfrom: "selectionFrom (mediaMapOf media) st"
    and sub: "set (originAnimeIds st) \<subseteq> set (take 4 (shuffle (shuffleDraws env) animeIds))"
    by auto
  have "set (take 4 (shuffle (shuffleDraws env) animeIds)) \<subseteq> set (shuffle (shuffleDraws env) animeIds)"
    by (rule set_take_subset)
  also have "\<dots> = set animeIds"
    by (rule mset_eq_setD [OF mset_shuffle])
  finally have sel: "set (take 4 (shuffle (shuffleDraws env) animeIds)) \<subseteq> set animeIds" .
  have org: "origins q = originAnimeIds st"
    using assemble_result [OF asm] by (elim conjE)
  note ao = assemble_options [OF asm]
  have bases: "map baseOf (characters q) = selectedCharsBase st"
    using ao by (rule conjunct1)
  have titles: "\<forall>i. i < length (selectedCharsBase st) \<and> i < length (originAnimeIds st) \<longrightarrow>
               animeTitle (characters q ! i) = batchTitle env (originAnimeIds st ! i)"
    using ao by (rule conjunct2)
  have len: "length (characters q) = length (selectedCharsBase st)"
    using bases by (metis length_map)
  have leno: "length (originAnimeIds st) = length (selectedCharsBase st)"
    using sfrom by (simp add: selectionFrom_def list_all2_lengthD)
  have pool_part: "\<exists>hs ids. poolOut env = Resolved hs (Some ids) \<and> set (origins q) \<subseteq> set ids"
  proof (intro exI conjI)
    show "poolOut env = Resolved hs (Some animeIds)" by (rule out)
    show "set (origins q) \<subseteq> set animeIds" using sub sel org by simp
  qed
  have opt_part: "\<forall>i<length (characters q).
               baseOf (characters q ! i) \<in> set (batchCharacters env (origins q ! i))
               \<and> animeTitle (characters q ! i) = batchTitle env (origins q ! i)"
  proof (intro allI impI conjI)
    fix i assume i: "i < length (characters q)"
    then have isel: "i < length (selectedCharsBase st)" using len by simp
    have "baseOf (characters q ! i) = map baseOf (characters q) ! i"
      using i by simp
    also have "\<dots> = selectedCharsBase st ! i" by (simp only: bases)
    finally have b: "baseOf (characters q ! i) = selectedCharsBase st ! i" .
    show "baseOf (characters q ! i) \<in> set (batchCharacters env (origins q ! i))"
      unfolding b org by (rule selectionFrom_batch [OF batch sfrom isel])
    show "animeTitle (characters q ! i) = batchTitle env (origins q ! i)"
      unfolding org using titles isel leno by simp
  qed
  from pool_part opt_part show ?thesis by (rule conjI)
qed

lemma loop_result_attempt:
  "attemptsLoop p envs attempts w = (Inr q, w', n)
     \<Longrightarrow> \<exists>wi. attempt p (envs n) wi = (Inr q, w')"
proof (induction p envs attempts w rule: attemptsLoop.induct)
  case (1 p envs attempts w)
  show ?case
  proof (cases "attempts < maxAttempts")
    case False
    with "1.prems" show ?thesis by (subst (asm) attemptsLoop.simps) simp
  next
    case lt: True
    obtain r w1 where att: "attempt p (envs attempts) w = (r, w1)"
      by (cases "attempt p (envs attempts) w")
    show ?thesis
    proof (cases r)
      case (Inr q1)
      with "1.prems" lt att have "q1 = q \<and> w1 = w' \<and> n = attempts"
        by (subst (asm) attemptsLoop.simps) simp
      with att Inr have "attempt p (envs n) w = (Inr q, w')" by simp
      then show ?thesis by (rule exI)
    next
      case (Inl f)
      show ?thesis
      proof (cases "isRateLimitError f \<or> Suc attempts = maxAttempts")
        case True
        with "1.prems" lt att Inl show ?thesis
          by (subst (asm) attemptsLoop.simps) (auto split: if_splits)
      next
        case False
        with "1.prems" lt att Inl
        have "attemptsLoop p envs (Suc attempts) w1 = (Inr q, w', n)"
          by (subst (asm) attemptsLoop.simps) simp
        with "1.IH" [OF lt att [symmetric] _ _ _ ] Inl False show ?thesis
          by auto
      qed
    qed
  qed
qed

text \<open>
  C1, as the code has it. \<^verbatim>\<open>getQuestionCharacters\<close> returns a question, made by the attempt
  with counter \<open>n\<close>, and the pool that attempt fetched holds no id twice. Then there are
  exactly 4 options and their character ids are pairwise different. Each option comes
  from the anime at its position in \<open>origins\<close>: it is, without its title, one of the
  characters with an image that the character batch of that attempt returned for that
  anime, and its title is the one the title batch returned for that anime. These 4 anime
  are pairwise different, they are ids of the fetched pool, and they are the very ids
  the title query asked for. \<^verbatim>\<open>correctCharacterId\<close> is the id of exactly one option, and
  \<^verbatim>\<open>correctAnimeId\<close> is the anime that option comes from.
\<close>

theorem question_well_formed:
  assumes "getQuestionCharacters p envs w = (Inr q, w', n)"
    and "\<forall>hs ids. poolOut (envs n) = Resolved hs (Some ids) \<longrightarrow> distinct ids"
  shows "length (characters q) = 4 \<and> distinct (map charId (characters q))
         \<and> length (origins q) = 4 \<and> distinct (origins q)
         \<and> (\<exists>!i. i < 4 \<and> charId (characters q ! i) = correctCharacterId q)
         \<and> (\<forall>i<4. charId (characters q ! i) = correctCharacterId q
                    \<longrightarrow> origins q ! i = correctAnimeId q)
         \<and> last (sent w') = GetTitlesBatch (origins q)
         \<and> (\<exists>hs ids. poolOut (envs n) = Resolved hs (Some ids) \<and> set (origins q) \<subseteq> set ids)
         \<and> (\<forall>i<4. baseOf (characters q ! i) \<in> set (batchCharacters (envs n) (origins q ! i)))
         \<and> (\<forall>i<4. hasImage (baseOf (characters q ! i)))
         \<and> (\<forall>i<4. animeTitle (characters q ! i) = batchTitle (envs n) (origins q ! i))"
proof -
  from assms(1) have "\<exists>wi. attempt p (envs n) wi = (Inr q, w')"
    unfolding getQuestionCharacters_def by (rule loop_result_attempt)
  then obtain wi where att: "attempt p (envs n) wi = (Inr q, w')" ..
  note ok = attempt_ok [OF att assms(2)]
  note af = attempt_from [OF att]
  have lc: "length (characters q) = 4" using ok by simp
  have dc: "distinct (map charId (characters q))" using ok by simp
  have lo: "length (origins q) = 4" using ok by simp
  have do: "distinct (origins q)" using ok by simp
  have lst: "last (sent w') = GetTitlesBatch (origins q)" using ok by simp
  have "\<exists>i<4. correctCharacterId q = charId (characters q ! i)
                   \<and> correctAnimeId q = origins q ! i"
    using ok by simp
  then obtain j where j: "j < 4" and cj: "correctCharacterId q = charId (characters q ! j)"
    and aj: "correctAnimeId q = origins q ! j"
    by auto
  have same: "i = j" if "i < 4" and "charId (characters q ! i) = correctCharacterId q" for i
  proof -
    have li: "i < length (map charId (characters q))" using that(1) lc by simp
    have lj: "j < length (map charId (characters q))" using j lc by simp
    have ni: "map charId (characters q) ! i = charId (characters q ! i)"
      using that(1) lc by simp
    have nj: "map charId (characters q) ! j = charId (characters q ! j)"
      using j lc by simp
    have "map charId (characters q) ! i = map charId (characters q) ! j"
      by (simp only: ni nj that(2) cj)
    then show ?thesis
      by (simp only: nth_eq_iff_index_eq [OF dc li lj])
  qed
  have uniq: "\<exists>!i. i < 4 \<and> charId (characters q ! i) = correctCharacterId q"
  proof (rule ex1I [of _ j])
    show "j < 4 \<and> charId (characters q ! j) = correctCharacterId q" using j cj by simp
  next
    fix i assume "i < 4 \<and> charId (characters q ! i) = correctCharacterId q"
    then show "i = j" using same by simp
  qed
  have orig: "\<forall>i<4. charId (characters q ! i) = correctCharacterId q
                    \<longrightarrow> origins q ! i = correctAnimeId q"
  proof (intro allI impI)
    fix i assume "i < 4" and "charId (characters q ! i) = correctCharacterId q"
    then have "i = j" by (rule same)
    then show "origins q ! i = correctAnimeId q" using aj by simp
  qed
  have pool: "\<exists>hs ids. poolOut (envs n) = Resolved hs (Some ids) \<and> set (origins q) \<subseteq> set ids"
    using af by (rule conjunct1)
  have opts: "\<forall>i<length (characters q).
               baseOf (characters q ! i) \<in> set (batchCharacters (envs n) (origins q ! i))
               \<and> animeTitle (characters q ! i) = batchTitle (envs n) (origins q ! i)"
    using af by (rule conjunct2)
  have batch: "\<forall>i<4. baseOf (characters q ! i) \<in> set (batchCharacters (envs n) (origins q ! i))"
    using opts lc by simp
  have img: "\<forall>i<4. hasImage (baseOf (characters q ! i))"
  proof (intro allI impI)
    fix i :: nat assume "i < 4"
    with batch have "baseOf (characters q ! i) \<in> set (batchCharacters (envs n) (origins q ! i))"
      by simp
    then show "hasImage (baseOf (characters q ! i))" by (rule batchCharacters_hasImage)
  qed
  have ttl: "\<forall>i<4. animeTitle (characters q ! i) = batchTitle (envs n) (origins q ! i)"
    using opts lc by simp
  show ?thesis
    by (intro conjI) (rule lc dc lo do uniq orig lst pool batch img ttl)+
qed

theorem question_well_formed_witness:
  "fst (getQuestionCharacters sampleParams (\<lambda>i. distinctPoolEnv) (initialWorld 0))
     = Inr distinctPoolQuestion
   \<and> snd (snd (getQuestionCharacters sampleParams (\<lambda>i. distinctPoolEnv) (initialWorld 0))) = 0
   \<and> poolOut distinctPoolEnv = Resolved Map.empty (Some [11, 12, 13, 14, 15])
   \<and> distinct [11, 12, 13, 14, 15 :: int]
   \<and> length (characters distinctPoolQuestion) = 4
   \<and> distinct (map charId (characters distinctPoolQuestion))
   \<and> distinct (origins distinctPoolQuestion)
   \<and> charId (characters distinctPoolQuestion ! 2) = correctCharacterId distinctPoolQuestion
   \<and> origins distinctPoolQuestion ! 2 = correctAnimeId distinctPoolQuestion
   \<and> baseOf (characters distinctPoolQuestion ! 2)
        \<in> set (batchCharacters distinctPoolEnv (origins distinctPoolQuestion ! 2))
   \<and> batchCharacters distinctPoolEnv 13 = [sampleCharacter 130]
   \<and> animeTitle (characters distinctPoolQuestion ! 2) = batchTitle distinctPoolEnv 13"
proof -
  have "fst (attempt sampleParams distinctPoolEnv (initialWorld 0)) = Inr distinctPoolQuestion"
    by (simp add: assembler_defs sample_defs client_defs governor_defs initialWorld_def
          enumerate_eq_zip Let_def)
  then have att: "attempt sampleParams ((\<lambda>i. distinctPoolEnv) (0::nat)) (initialWorld 0)
      = (Inr distinctPoolQuestion, snd (attempt sampleParams distinctPoolEnv (initialWorld 0)))"
    by (simp add: prod_eq_iff)
  have run: "getQuestionCharacters sampleParams (\<lambda>i. distinctPoolEnv) (initialWorld 0)
      = (Inr distinctPoolQuestion, snd (attempt sampleParams distinctPoolEnv (initialWorld 0)), 0)"
    unfolding getQuestionCharacters_def
    by (rule loop_success [where envs = "\<lambda>i. distinctPoolEnv" and attempts = 0, OF _ att])
       (simp add: maxAttempts_def)
  have pool: "\<forall>hs ids. poolOut ((\<lambda>i. distinctPoolEnv) (0::nat)) = Resolved hs (Some ids)
                \<longrightarrow> distinct ids"
    by (simp add: distinctPoolEnv_def)
  note wf = question_well_formed [OF run pool]
  have c1: "fst (getQuestionCharacters sampleParams (\<lambda>i. distinctPoolEnv) (initialWorld 0))
     = Inr distinctPoolQuestion"
    by (simp only: run fst_conv)
  have c2: "snd (snd (getQuestionCharacters sampleParams (\<lambda>i. distinctPoolEnv) (initialWorld 0))) = 0"
    by (simp only: run snd_conv)
  have c3: "poolOut distinctPoolEnv = Resolved Map.empty (Some [11, 12, 13, 14, 15])"
    by (simp add: distinctPoolEnv_def)
  have c4: "distinct [11, 12, 13, 14, 15 :: int]" by simp
  have c5: "length (characters distinctPoolQuestion) = 4" using wf by simp
  have c6: "distinct (map charId (characters distinctPoolQuestion))" using wf by simp
  have c7: "distinct (origins distinctPoolQuestion)" using wf by simp
  have c8: "charId (characters distinctPoolQuestion ! 2) = correctCharacterId distinctPoolQuestion"
    by (simp add: distinctPoolQuestion_def withoutTitle_def)
  have c9: "origins distinctPoolQuestion ! 2 = correctAnimeId distinctPoolQuestion"
    by (simp add: distinctPoolQuestion_def)
  have "\<forall>i<4. baseOf (characters distinctPoolQuestion ! i)
          \<in> set (batchCharacters distinctPoolEnv (origins distinctPoolQuestion ! i))"
    using wf by simp
  then have c10: "baseOf (characters distinctPoolQuestion ! 2)
        \<in> set (batchCharacters distinctPoolEnv (origins distinctPoolQuestion ! 2))"
    by simp
  have c11: "batchCharacters distinctPoolEnv 13 = [sampleCharacter 130]"
    by (simp add: batchCharacters_def mediaMapOf_def newMap_def hasImage_def truthy_def
        distinctPoolEnv_def sampleCharacter_def)
  have c12: "animeTitle (characters distinctPoolQuestion ! 2) = batchTitle distinctPoolEnv 13"
    by (simp add: batchTitle_def newMap_def distinctPoolEnv_def distinctPoolQuestion_def)
  show ?thesis
    by (intro conjI) (rule c1 c2 c3 c4 c5 c6 c7 c8 c9 c10 c11 c12)+
qed

text \<open>
  The claim as written asks only that the pool contain at least 4 different ids. The
  pool \<open>[1, 1, 2, 3, 4]\<close> does, and when the first four are taken and anime 1 has two
  characters with images, the question returned has two options from anime 1: the
  characters 10 and 11, both in the list the batch returned for anime 1.
\<close>

theorem repeated_pool_id_repeats_origin:
  "poolOut repeatedPoolEnv = Resolved Map.empty (Some [1, 1, 2, 3, 4])
   \<and> card (set [1, 1, 2, 3, 4 :: int]) = 4
   \<and> fst (getQuestionCharacters sampleParams (\<lambda>i. repeatedPoolEnv) (initialWorld 0))
       = Inr \<lparr>characters = [withoutTitle 10, withoutTitle 11, withoutTitle 20, withoutTitle 30],
              correctCharacterId = 20, correctAnimeId = 2, origins = [1, 1, 2, 3]\<rparr>
   \<and> \<not> distinct [1, 1, 2, 3 :: int]
   \<and> batchCharacters repeatedPoolEnv 1 = [sampleCharacter 10, sampleCharacter 11]
   \<and> baseOf (withoutTitle 10) = sampleCharacter 10
   \<and> baseOf (withoutTitle 11) = sampleCharacter 11"
  unfolding getQuestionCharacters_def
  by (subst attemptsLoop.simps)
     (simp add: assembler_defs sample_defs client_defs governor_defs initialWorld_def
        enumerate_eq_zip Let_def batchCharacters_def baseOf_def truthy_def)

end
